theory Spec2Isabelle
  imports Main
begin

section \<open>The forecast client: errors, responses and the transport\<close>

text \<open>
  The package has three operations: \<open>GetResponse\<close> builds the request URL and performs
  the GET, \<open>FromJSON\<close> decodes a body into a \<open>Forecast\<close>, and \<open>Get\<close> composes the two
  and stores the value of the \<open>X-Forecast-API-Calls\<close> header. Go strings are byte
  strings, modelled as \<open>string\<close> (a list of 8-bit characters).

  Every Go function returning \<open>(p, err)\<close> is modelled as returning a pair of options:
  \<open>None\<close> in the first component is the nil pointer, \<open>None\<close> in the second the nil
  error.
\<close>

datatype error =
    HttpError string              \<comment> \<open>an error returned by \<open>http.Get\<close>\<close>
  | ReadError string              \<comment> \<open>an error returned by \<open>ioutil.ReadAll\<close>\<close>
  | SyntaxError                   \<comment> \<open>\<open>*json.SyntaxError\<close>\<close>
  | UnmarshalTypeError string     \<comment> \<open>\<open>*json.UnmarshalTypeError\<close>, with its \<open>Value\<close> field\<close>
  | NilDereference                \<comment> \<open>the runtime panic of dereferencing a nil pointer\<close>

text \<open>The two error kinds of the specification.\<close>

fun is_TransportError :: "error \<Rightarrow> bool" where
  "is_TransportError (HttpError _) = True"
| "is_TransportError (ReadError _) = True"
| "is_TransportError _ = False"

fun is_DecodeError :: "error \<Rightarrow> bool" where
  "is_DecodeError SyntaxError = True"
| "is_DecodeError (UnmarshalTypeError _) = True"
| "is_DecodeError _ = False"

text \<open>
  Of an \<open>*http.Response\<close> the code uses the header map and the body. \<open>Header\<close> is Go's
  \<open>map[string][]string\<close>; \<open>Body\<close> is what \<open>ioutil.ReadAll(res.Body)\<close> returns: the
  bytes read and the error, if any.
\<close>

record Response =
  Header :: "string \<rightharpoonup> string list"
  Body :: "string \<times> error option"

text \<open>
  \<open>http.Get\<close> is the transport. By its contract it returns a response whenever it
  returns no error, and on error the response may or may not be nil.
\<close>

datatype http_result = HttpOk Response | HttpFail "Response option" error

type_synonym transport = "string \<Rightarrow> http_result"

section \<open>Request Builder\<close>

definition BASEURL :: string where
  "BASEURL = ''https://api.forecast.io/forecast''"

text \<open>\<open>type Units string\<close>: any string converts to \<open>Units\<close>; five constants are declared.\<close>

type_synonym Units = string

definition CA :: Units where "CA = ''ca''"
definition SI :: Units where "SI = ''si''"
definition US :: Units where "US = ''us''"
definition UK :: Units where "UK = ''uk''"
definition AUTO :: Units where "AUTO = ''auto''"

text \<open>
  \<open>GetResponse\<close> concatenates the URL and calls \<open>http.Get\<close> once. The list of the URLs
  requested so far is threaded through as the state of the network: the call appends
  its URL. (The \<open>log.Println\<close> of the URL writes to standard error and is not modelled.)
\<close>

definition GetResponse ::
  "transport \<Rightarrow> string \<Rightarrow> string \<Rightarrow> string \<Rightarrow> string \<Rightarrow> Units \<Rightarrow> string list
     \<Rightarrow> (Response option \<times> error option) \<times> string list" where
  "GetResponse http_Get key lat long time units requested =
     (let coord = lat @ '','' @ long;
          url = (if time = ''now''
                 then BASEURL @ ''/'' @ key @ ''/'' @ coord @ ''?units='' @ units
                 else BASEURL @ ''/'' @ key @ ''/'' @ coord @ '','' @ time @ ''?units='' @ units)
      in (case http_Get url of
            HttpOk res \<Rightarrow> (Some res, None)
          | HttpFail res err \<Rightarrow> (res, Some err),
          requested @ [url]))"

section \<open>JSON texts\<close>

text \<open>
  \<open>FromJSON\<close> hands the body to \<open>json.Unmarshal\<close> of Go's \<open>encoding/json\<close>. That
  function first checks the whole input against the JSON grammar (\<open>checkValid\<close>) and
  returns a \<open>*SyntaxError\<close> if the check fails; only then does it decode the value into
  the target. The grammar is modelled by \<open>parse_json\<close>, which returns the value read:
  a number keeps its literal, a string is unquoted, an object keeps its members in the
  order of the text, duplicates included.
\<close>

datatype json =
    JNull
  | JBool bool
  | JNumber string
  | JString string
  | JArray "json list"
  | JObject "(string \<times> json) list"

text \<open>
  The scanner of \<open>encoding/json\<close> is a state machine over bytes. It is split here
  into the literals (strings, numbers, \<open>true\<close>, \<open>false\<close>, \<open>null\<close>) and the structure
  built from them.
\<close>

datatype token =
    TBeginObject | TEndObject | TBeginArray | TEndArray | TColon | TComma
  | TString string | TNumber string | TTrue | TFalse | TNull

definition isSpace :: "char \<Rightarrow> bool" where
  "isSpace c = (c = CHR 0x20 \<or> c = CHR 0x09 \<or> c = CHR 0x0D \<or> c = CHR 0x0A)"

definition in_range :: "char \<Rightarrow> int \<Rightarrow> int \<Rightarrow> bool" where
  "in_range c lo hi = (lo \<le> of_char c \<and> (of_char c :: int) \<le> hi)"

definition is_digit :: "char \<Rightarrow> bool" where
  "is_digit c = in_range c 0x30 0x39"

definition hexval :: "char \<Rightarrow> int option" where
  "hexval c =
     (if in_range c 0x30 0x39 then Some (of_char c - 0x30)
      else if in_range c 0x61 0x66 then Some (of_char c - 0x61 + 10)
      else if in_range c 0x41 0x46 then Some (of_char c - 0x41 + 10)
      else None)"

text \<open>
  A string literal, after its opening quote: it ends at the next unescaped quote; a
  backslash is followed by one of the letters \<open>b f n r t\<close>, a backslash, a slash or
  a quote, or by \<open>u\<close> and four hexadecimal digits; bytes below \<open>0x20\<close> are not allowed. \<open>scan_string\<close> returns the bytes between
  the quotes and the rest of the input.
\<close>

definition is_simple_escape :: "char \<Rightarrow> bool" where
  "is_simple_escape e =
     (e \<in> set [CHR ''b'', CHR ''f'', CHR ''n'', CHR ''r'', CHR ''t'', CHR 0x5C, CHR ''/'', CHR 0x22])"

definition is_hex :: "char \<Rightarrow> bool" where
  "is_hex c = (hexval c \<noteq> None)"

fun scan_string :: "string \<Rightarrow> string \<Rightarrow> (string \<times> string) option" where
  "scan_string acc [] = None"
| "scan_string acc (c # cs) =
     (if c = CHR 0x22 then Some (rev acc, cs)
      else if c = CHR 0x5C then
        (case cs of
           [] \<Rightarrow> None
         | e # es \<Rightarrow>
             if is_simple_escape e then scan_string (e # c # acc) es
             else if e = CHR ''u'' then
               (case es of
                  h1 # h2 # h3 # h4 # rest \<Rightarrow>
                    if is_hex h1 \<and> is_hex h2 \<and> is_hex h3 \<and> is_hex h4
                    then scan_string (h4 # h3 # h2 # h1 # e # c # acc) rest
                    else None
                | _ \<Rightarrow> None)
             else None)
      else if of_char c < (0x20 :: int) then None
      else scan_string (c # acc) cs)"

lemma scan_string_shorter: "scan_string acc cs = Some (raw, rest) \<Longrightarrow> length rest < length cs"
  by (induction acc cs rule: scan_string.induct)
     (auto split: if_splits list.splits, fastforce)


text \<open>
  A number literal: an optional minus sign, \<open>0\<close> or a digit \<open>1\<close>-\<open>9\<close> followed by digits,
  an optional fraction (a dot and at least one digit) and an optional exponent (\<open>e\<close> or
  \<open>E\<close>, an optional sign and at least one digit).
\<close>

definition scan_int :: "string \<Rightarrow> (string \<times> string) option" where
  "scan_int cs =
     (case cs of
        [] \<Rightarrow> None
      | c # r \<Rightarrow>
          if c = CHR ''0'' then Some ([c], r)
          else if in_range c 0x31 0x39 then Some (c # takeWhile is_digit r, dropWhile is_digit r)
          else None)"

definition scan_frac :: "string \<Rightarrow> (string \<times> string) option" where
  "scan_frac cs =
     (case cs of
        [] \<Rightarrow> Some ([], [])
      | c # r \<Rightarrow>
          if c = CHR ''.'' then
            (if takeWhile is_digit r = [] then None
             else Some (c # takeWhile is_digit r, dropWhile is_digit r))
          else Some ([], cs))"

definition scan_exp :: "string \<Rightarrow> (string \<times> string) option" where
  "scan_exp cs =
     (case cs of
        [] \<Rightarrow> Some ([], [])
      | c # r \<Rightarrow>
          if c = CHR ''e'' \<or> c = CHR ''E'' then
            (let (sign, r') = (case r of
                                 [] \<Rightarrow> ([], [])
                               | s # t \<Rightarrow> if s = CHR ''+'' \<or> s = CHR ''-'' then ([s], t) else ([], r))
             in if takeWhile is_digit r' = [] then None
                else Some (c # sign @ takeWhile is_digit r', dropWhile is_digit r'))
          else Some ([], cs))"

definition scan_number :: "string \<Rightarrow> (string \<times> string) option" where
  "scan_number cs =
     (let (sign, r0) = (case cs of
                          [] \<Rightarrow> ([], [])
                        | c # r \<Rightarrow> if c = CHR ''-'' then ([c], r) else ([], cs))
      in case scan_int r0 of
           None \<Rightarrow> None
         | Some (i, r1) \<Rightarrow>
             (case scan_frac r1 of
                None \<Rightarrow> None
              | Some (f, r2) \<Rightarrow>
                  (case scan_exp r2 of
                     None \<Rightarrow> None
                   | Some (e, r3) \<Rightarrow> Some (sign @ i @ f @ e, r3))))"

lemma scan_int_shorter: "scan_int cs = Some (l, rest) \<Longrightarrow> length rest < length cs"
  by (auto simp: scan_int_def less_Suc_eq_le length_dropWhile_le split: list.splits if_splits)

lemma scan_frac_shorter: "scan_frac cs = Some (l, rest) \<Longrightarrow> length rest \<le> length cs"
  by (auto simp: scan_frac_def le_SucI length_dropWhile_le split: list.splits if_splits)

lemma scan_exp_shorter: "scan_exp cs = Some (l, rest) \<Longrightarrow> length rest \<le> length cs"
  by (auto simp: scan_exp_def Let_def le_SucI length_dropWhile_le split: list.splits if_splits
           intro: order_trans [OF length_dropWhile_le])

lemma scan_number_shorter: "scan_number cs = Some (l, rest) \<Longrightarrow> length rest < length cs"
proof -
  assume a: "scan_number cs = Some (l, rest)"
  define r0 where "r0 = (case cs of [] \<Rightarrow> [] | c # r \<Rightarrow> if c = CHR ''-'' then r else cs)"
  have r0: "length r0 \<le> length cs"
    by (auto simp: r0_def split: list.splits)
  from a obtain i r1 f r2 e where
    1: "scan_int r0 = Some (i, r1)" and 2: "scan_frac r1 = Some (f, r2)"
    and 3: "scan_exp r2 = Some (e, rest)"
    by (auto simp: scan_number_def r0_def Let_def split: list.splits if_splits option.splits)
  from scan_int_shorter [OF 1] scan_frac_shorter [OF 2] scan_exp_shorter [OF 3] r0
  show ?thesis by linarith
qed

subsection \<open>String literals\<close>

text \<open>
  \<open>unquote\<close> (Go's \<open>unquoteBytes\<close>) turns the bytes between the quotes into the string
  they denote: escapes are replaced, a \<open>u\<close> escape is encoded in UTF-8 (a surrogate pair
  as one code point, an unpaired surrogate as U+FFFD), and every byte that does not start
  a well-formed UTF-8 sequence is replaced by U+FFFD. \<open>DecodeRune_size\<close> is the length of
  the well-formed multi-byte sequence at the head of its argument, if there is one
  (the table of \<open>utf8.DecodeRune\<close>).
\<close>

fun getu4 :: "string \<Rightarrow> int option" where
  "getu4 (b # u # h1 # h2 # h3 # h4 # _) =
     (if b = CHR 0x5C \<and> u = CHR ''u'' then
        (case (hexval h1, hexval h2, hexval h3, hexval h4) of
           (Some x1, Some x2, Some x3, Some x4) \<Rightarrow> Some (((x1 * 16 + x2) * 16 + x3) * 16 + x4)
         | _ \<Rightarrow> None)
      else None)"
| "getu4 _ = None"

definition ReplacementChar :: int where
  "ReplacementChar = 0xFFFD"

definition IsSurrogate :: "int \<Rightarrow> bool" where
  "IsSurrogate r = (0xD800 \<le> r \<and> r < 0xE000)"

definition DecodeRune16 :: "int \<Rightarrow> int option \<Rightarrow> int" where
  "DecodeRune16 r1 r2 =
     (case r2 of
        None \<Rightarrow> ReplacementChar
      | Some r2 \<Rightarrow>
          if 0xD800 \<le> r1 \<and> r1 < 0xDC00 \<and> 0xDC00 \<le> r2 \<and> r2 < 0xE000
          then (r1 - 0xD800) * 1024 + (r2 - 0xDC00) + 0x10000
          else ReplacementChar)"

definition EncodeRune :: "int \<Rightarrow> string" where
  "EncodeRune r =
     (if r \<le> 0x7F then [char_of r]
      else if r \<le> 0x7FF then [char_of (0xC0 + r div 64), char_of (0x80 + r mod 64)]
      else if r > 0x10FFFF \<or> (0xD800 \<le> r \<and> r \<le> 0xDFFF) then [CHR 0xEF, CHR 0xBF, CHR 0xBD]
      else if r \<le> 0xFFFF then
        [char_of (0xE0 + r div 4096), char_of (0x80 + (r div 64) mod 64), char_of (0x80 + r mod 64)]
      else
        [char_of (0xF0 + r div 262144), char_of (0x80 + (r div 4096) mod 64),
         char_of (0x80 + (r div 64) mod 64), char_of (0x80 + r mod 64)])"

fun DecodeRune_size :: "string \<Rightarrow> nat option" where
  "DecodeRune_size [] = None"
| "DecodeRune_size (b0 # rest) =
     (if in_range b0 0xC2 0xDF then
        (case rest of
           b1 # _ \<Rightarrow> if in_range b1 0x80 0xBF then Some 2 else None
         | _ \<Rightarrow> None)
      else if in_range b0 0xE0 0xEF then
        (case rest of
           b1 # b2 # _ \<Rightarrow>
             if in_range b1 (if b0 = CHR 0xE0 then 0xA0 else 0x80) (if b0 = CHR 0xED then 0x9F else 0xBF)
                \<and> in_range b2 0x80 0xBF
             then Some 3 else None
         | _ \<Rightarrow> None)
      else if in_range b0 0xF0 0xF4 then
        (case rest of
           b1 # b2 # b3 # _ \<Rightarrow>
             if in_range b1 (if b0 = CHR 0xF0 then 0x90 else 0x80) (if b0 = CHR 0xF4 then 0x8F else 0xBF)
                \<and> in_range b2 0x80 0xBF \<and> in_range b3 0x80 0xBF
             then Some 4 else None
         | _ \<Rightarrow> None)
      else None)"

definition escape_char :: "char \<Rightarrow> char option" where
  "escape_char e =
     (if e = CHR 0x22 \<or> e = CHR 0x5C \<or> e = CHR ''/'' \<or> e = CHR 0x27 then Some e
      else if e = CHR ''b'' then Some (CHR 0x08)
      else if e = CHR ''f'' then Some (CHR 0x0C)
      else if e = CHR ''n'' then Some (CHR 0x0A)
      else if e = CHR ''r'' then Some (CHR 0x0D)
      else if e = CHR ''t'' then Some (CHR 0x09)
      else None)"

fun unquote :: "string \<Rightarrow> string option" where
  "unquote [] = Some []"
| "unquote (c # cs) =
     (if c = CHR 0x5C then
        (case cs of
           [] \<Rightarrow> None
         | e # es \<Rightarrow>
             if e = CHR ''u'' then
               (case getu4 (c # cs) of
                  None \<Rightarrow> None
                | Some rr \<Rightarrow>
                    if IsSurrogate rr then
                      (if DecodeRune16 rr (getu4 (drop 4 es)) \<noteq> ReplacementChar
                       then map_option ((@) (EncodeRune (DecodeRune16 rr (getu4 (drop 4 es)))))
                              (unquote (drop 10 es))
                       else map_option ((@) (EncodeRune ReplacementChar)) (unquote (drop 4 es)))
                    else map_option ((@) (EncodeRune rr)) (unquote (drop 4 es)))
             else
               (case escape_char e of
                  None \<Rightarrow> None
                | Some x \<Rightarrow> map_option ((#) x) (unquote es)))
      else if c = CHR 0x22 \<or> of_char c < (0x20 :: int) then None
      else if of_char c < (0x80 :: int) then map_option ((#) c) (unquote cs)
      else
        (case DecodeRune_size (c # cs) of
           Some n \<Rightarrow> map_option ((@) (c # take (n - 1) cs)) (unquote (drop (n - 1) cs))
         | None \<Rightarrow> map_option ((@) (EncodeRune ReplacementChar)) (unquote cs)))"

subsection \<open>Tokens\<close>

text \<open>White space between tokens is space, tab, carriage return and line feed.\<close>

function lex :: "string \<Rightarrow> token list option" where
  "lex [] = Some []"
| "lex (c # cs) =
     (if isSpace c then lex cs
      else if c = CHR ''{'' then map_option ((#) TBeginObject) (lex cs)
      else if c = CHR ''}'' then map_option ((#) TEndObject) (lex cs)
      else if c = CHR ''['' then map_option ((#) TBeginArray) (lex cs)
      else if c = CHR '']'' then map_option ((#) TEndArray) (lex cs)
      else if c = CHR '':'' then map_option ((#) TColon) (lex cs)
      else if c = CHR '','' then map_option ((#) TComma) (lex cs)
      else if c = CHR 0x22 then
        (case scan_string [] cs of
           None \<Rightarrow> None
         | Some (raw, rest) \<Rightarrow>
             (case unquote raw of
                None \<Rightarrow> None
              | Some s \<Rightarrow> map_option ((#) (TString s)) (lex rest)))
      else if c = CHR ''-'' \<or> is_digit c then
        (case scan_number (c # cs) of
           None \<Rightarrow> None
         | Some (lit, rest) \<Rightarrow> map_option ((#) (TNumber lit)) (lex rest))
      else if c = CHR ''t'' \<and> take 3 cs = ''rue'' then map_option ((#) TTrue) (lex (drop 3 cs))
      else if c = CHR ''f'' \<and> take 4 cs = ''alse'' then map_option ((#) TFalse) (lex (drop 4 cs))
      else if c = CHR ''n'' \<and> take 3 cs = ''ull'' then map_option ((#) TNull) (lex (drop 3 cs))
      else None)"
  by pat_completeness auto
termination
  apply (relation "measure length")
  apply simp_all
  subgoal for c cs x2 x y using scan_string_shorter [of "[]" cs x y] by simp
  subgoal for c cs x2 x y using scan_number_shorter [of "c # cs" x y] by simp
  done

subsection \<open>Values\<close>

text \<open>
  The structure of the text, with the scanner's states (\<open>stateBeginValue\<close>,
  \<open>stateBeginValueOrEmpty\<close>, \<open>stateBeginStringOrEmpty\<close>, \<open>stateBeginString\<close>, the state
  after an object key, \<open>stateEndValue\<close>, \<open>stateEndTop\<close>) and its stack of open arrays and
  objects. A frame holds the elements or members read so far, latest first. The scanner
  refuses to open more than \<open>maxNestingDepth\<close> nested arrays and objects. After the
  top-level value only white space may follow.
\<close>

datatype frame =
    ArrayFrame "json list"
  | ObjectFrame "(string \<times> json) list"
  | KeyFrame "(string \<times> json) list" string

datatype step =
    BeginValue | BeginValueOrEmpty | BeginStringOrEmpty | BeginString | ObjectKey | EndValue
  | EndTop json

definition maxNestingDepth :: int where
  "maxNestingDepth = 10000"

fun end_value :: "json \<Rightarrow> frame list \<Rightarrow> (step \<times> frame list) option" where
  "end_value v [] = Some (EndTop v, [])"
| "end_value v (ArrayFrame vs # st) = Some (EndValue, ArrayFrame (v # vs) # st)"
| "end_value v (KeyFrame ms k # st) = Some (EndValue, ObjectFrame ((k, v) # ms) # st)"
| "end_value v (ObjectFrame ms # st) = None"

fun begin_value :: "token \<Rightarrow> frame list \<Rightarrow> (step \<times> frame list) option" where
  "begin_value TBeginObject st =
     (if int (length st) < maxNestingDepth then Some (BeginStringOrEmpty, ObjectFrame [] # st) else None)"
| "begin_value TBeginArray st =
     (if int (length st) < maxNestingDepth then Some (BeginValueOrEmpty, ArrayFrame [] # st) else None)"
| "begin_value (TString s) st = end_value (JString s) st"
| "begin_value (TNumber l) st = end_value (JNumber l) st"
| "begin_value TTrue st = end_value (JBool True) st"
| "begin_value TFalse st = end_value (JBool False) st"
| "begin_value TNull st = end_value JNull st"
| "begin_value _ st = None"

fun scan_step :: "token \<Rightarrow> step \<times> frame list \<Rightarrow> (step \<times> frame list) option" where
  "scan_step t (BeginValue, st) = begin_value t st"
| "scan_step t (BeginValueOrEmpty, st) =
     (case (t, st) of
        (TEndArray, ArrayFrame vs # st') \<Rightarrow> end_value (JArray (rev vs)) st'
      | _ \<Rightarrow> begin_value t st)"
| "scan_step t (BeginStringOrEmpty, st) =
     (case (t, st) of
        (TEndObject, ObjectFrame ms # st') \<Rightarrow> end_value (JObject (rev ms)) st'
      | (TString k, ObjectFrame ms # st') \<Rightarrow> Some (ObjectKey, KeyFrame ms k # st')
      | _ \<Rightarrow> None)"
| "scan_step t (BeginString, st) =
     (case (t, st) of
        (TString k, ObjectFrame ms # st') \<Rightarrow> Some (ObjectKey, KeyFrame ms k # st')
      | _ \<Rightarrow> None)"
| "scan_step t (ObjectKey, st) = (case t of TColon \<Rightarrow> Some (BeginValue, st) | _ \<Rightarrow> None)"
| "scan_step t (EndValue, st) =
     (case (t, st) of
        (TComma, ArrayFrame vs # st') \<Rightarrow> Some (BeginValue, st)
      | (TComma, ObjectFrame ms # st') \<Rightarrow> Some (BeginString, st)
      | (TEndArray, ArrayFrame vs # st') \<Rightarrow> end_value (JArray (rev vs)) st'
      | (TEndObject, ObjectFrame ms # st') \<Rightarrow> end_value (JObject (rev ms)) st'
      | _ \<Rightarrow> None)"
| "scan_step t (EndTop v, st) = None"

fun scan_tokens :: "token list \<Rightarrow> step \<times> frame list \<Rightarrow> (step \<times> frame list) option" where
  "scan_tokens [] s = Some s"
| "scan_tokens (t # ts) s = (case scan_step t s of None \<Rightarrow> None | Some s' \<Rightarrow> scan_tokens ts s')"

definition parse_json :: "string \<Rightarrow> json option" where
  "parse_json data =
     (case lex data of
        None \<Rightarrow> None
      | Some ts \<Rightarrow>
          (case scan_tokens ts (BeginValue, []) of
             Some (EndTop v, _) \<Rightarrow> Some v
           | _ \<Rightarrow> None))"


subsection \<open>The grammar of JSON\<close>

text \<open>
  The syntax of JSON as RFC 8259 gives it, read over bytes and stated without reference to
  the scanner above: it is what "syntactically valid JSON" means below. The grammar puts
  no bound on nesting and, like \<open>encoding/json\<close>, it does not ask the bytes of a string
  to be well-formed UTF-8 (the decoder replaces ill-formed bytes by \<open>U+FFFD\<close>).
\<close>

text \<open>
  The characters between the quotes of a string: any byte from \<open>0x20\<close> up other than the
  quote and the backslash; a backslash followed by a quote, a backslash, a slash or one
  of the letters \<open>b\<close>, \<open>f\<close>, \<open>n\<close>, \<open>r\<close>, \<open>t\<close>; or a backslash followed by \<open>u\<close> and four
  hexadecimal digits.
\<close>

inductive string_chars :: "string \<Rightarrow> bool" where
  "string_chars []"
| "string_chars cs \<Longrightarrow> (0x20 :: int) \<le> of_char c \<Longrightarrow> c \<noteq> CHR 0x22 \<Longrightarrow> c \<noteq> CHR 0x5C \<Longrightarrow>
   string_chars (c # cs)"
| "string_chars cs \<Longrightarrow> is_simple_escape e \<Longrightarrow> string_chars (CHR 0x5C # e # cs)"
| "string_chars cs \<Longrightarrow> is_hex h1 \<Longrightarrow> is_hex h2 \<Longrightarrow> is_hex h3 \<Longrightarrow> is_hex h4 \<Longrightarrow>
   string_chars (CHR 0x5C # CHR ''u'' # h1 # h2 # h3 # h4 # cs)"

text \<open>
  A number: an optional minus sign, an integer part without a leading zero, an optional
  fraction and an optional exponent.
\<close>

definition number_int :: "string \<Rightarrow> bool" where
  "number_int s = (s = ''0'' \<or> (\<exists>d ds. s = d # ds \<and> in_range d 0x31 0x39 \<and> list_all is_digit ds))"

definition number_frac :: "string \<Rightarrow> bool" where
  "number_frac s = (\<exists>ds. s = CHR ''.'' # ds \<and> ds \<noteq> [] \<and> list_all is_digit ds)"

definition number_exp :: "string \<Rightarrow> bool" where
  "number_exp s =
     (\<exists>e sign ds. s = e # sign @ ds \<and> (e = CHR ''e'' \<or> e = CHR ''E'') \<and>
        (sign = [] \<or> sign = ''+'' \<or> sign = ''-'') \<and> ds \<noteq> [] \<and> list_all is_digit ds)"

definition number_text :: "string \<Rightarrow> bool" where
  "number_text s =
     (\<exists>sign i f e. s = sign @ i @ f @ e \<and> (sign = [] \<or> sign = ''-'') \<and> number_int i \<and>
        (f = [] \<or> number_frac f) \<and> (e = [] \<or> number_exp e))"

text \<open>The spelling of a token; the value of a string token plays no part in it.\<close>

inductive token_text :: "token \<Rightarrow> string \<Rightarrow> bool" where
  "token_text TBeginObject ''{''"
| "token_text TEndObject ''}''"
| "token_text TBeginArray ''[''"
| "token_text TEndArray '']''"
| "token_text TColon '':''"
| "token_text TComma '',''"
| "token_text TTrue ''true''"
| "token_text TFalse ''false''"
| "token_text TNull ''null''"
| "number_text l \<Longrightarrow> token_text (TNumber l) l"
| "string_chars b \<Longrightarrow> token_text (TString s) (CHR 0x22 # b @ [CHR 0x22])"

text \<open>
  A text spells a list of tokens when it is their spellings in order, with any white space
  (space, tab, line feed, carriage return) before, between and after them.
\<close>

inductive spells :: "token list \<Rightarrow> string \<Rightarrow> bool" where
  "list_all isSpace w \<Longrightarrow> spells [] w"
| "list_all isSpace w \<Longrightarrow> token_text t s \<Longrightarrow> spells ts rest \<Longrightarrow> spells (t # ts) (w @ s @ rest)"

text \<open>
  The tokens of a value, of the elements of a nonempty array and of the members of a
  nonempty object.
\<close>

inductive value_tokens :: "token list \<Rightarrow> bool"
  and element_tokens :: "token list \<Rightarrow> bool"
  and member_tokens :: "token list \<Rightarrow> bool" where
  "value_tokens [TNull]"
| "value_tokens [TTrue]"
| "value_tokens [TFalse]"
| "value_tokens [TNumber l]"
| "value_tokens [TString s]"
| "value_tokens [TBeginArray, TEndArray]"
| "element_tokens es \<Longrightarrow> value_tokens (TBeginArray # es @ [TEndArray])"
| "value_tokens [TBeginObject, TEndObject]"
| "member_tokens ms \<Longrightarrow> value_tokens (TBeginObject # ms @ [TEndObject])"
| "value_tokens v \<Longrightarrow> element_tokens v"
| "value_tokens v \<Longrightarrow> element_tokens es \<Longrightarrow> element_tokens (v @ TComma # es)"
| "value_tokens v \<Longrightarrow> member_tokens (TString k # TColon # v)"
| "value_tokens v \<Longrightarrow> member_tokens ms \<Longrightarrow> member_tokens (TString k # TColon # v @ TComma # ms)"

text \<open>A JSON text is the spelling of the tokens of one value.\<close>

definition JSON_text :: "string \<Rightarrow> bool" where
  "JSON_text data = (\<exists>ts. spells ts data \<and> value_tokens ts)"


subsection \<open>The tokens read by the scanner\<close>

text \<open>
  The tokens of a value, and the tokens the scanner has read when it is in a given state
  with a given stack: they relate the scanner to the grammar.
\<close>

fun sep :: "token list list \<Rightarrow> token list" where
  "sep [] = []"
| "sep [x] = x"
| "sep (x # y # zs) = x @ TComma # sep (y # zs)"

fun tokens_of :: "json \<Rightarrow> token list" where
  "tokens_of JNull = [TNull]"
| "tokens_of (JBool b) = [if b then TTrue else TFalse]"
| "tokens_of (JNumber l) = [TNumber l]"
| "tokens_of (JString s) = [TString s]"
| "tokens_of (JArray vs) = TBeginArray # sep (map tokens_of vs) @ [TEndArray]"
| "tokens_of (JObject ms) =
     TBeginObject # sep (map (\<lambda>m. TString (fst m) # TColon # tokens_of (snd m)) ms) @ [TEndObject]"

abbreviation member_of :: "string \<times> json \<Rightarrow> token list" where
  "member_of m \<equiv> TString (fst m) # TColon # tokens_of (snd m)"

fun opened :: "frame \<Rightarrow> token list" where
  "opened (ArrayFrame vs) = TBeginArray # sep (map tokens_of (rev vs))"
| "opened (ObjectFrame ms) = TBeginObject # sep (map member_of (rev ms))"
| "opened (KeyFrame ms k) = TBeginObject # sep (map member_of (rev ms))"

fun awaiting :: "frame \<Rightarrow> token list" where
  "awaiting (ArrayFrame vs) = opened (ArrayFrame vs) @ (if vs = [] then [] else [TComma])"
| "awaiting (ObjectFrame ms) = opened (ObjectFrame ms) @ (if ms = [] then [] else [TComma])"
| "awaiting (KeyFrame ms k) =
     opened (ObjectFrame ms) @ (if ms = [] then [] else [TComma]) @ [TString k, TColon]"

definition below :: "frame list \<Rightarrow> token list" where
  "below st = concat (map awaiting (rev st))"

fun consumed :: "step \<times> frame list \<Rightarrow> token list" where
  "consumed (ObjectKey, KeyFrame ms k # st) = below st @ awaiting (ObjectFrame ms) @ [TString k]"
| "consumed (EndValue, f # st) = below st @ opened f"
| "consumed (EndTop v, st) = tokens_of v"
| "consumed (_, st) = below st"

fun wf_state :: "step \<times> frame list \<Rightarrow> bool" where
  "wf_state (BeginValue, st) = True"
| "wf_state (BeginValueOrEmpty, ArrayFrame [] # st) = True"
| "wf_state (BeginStringOrEmpty, ObjectFrame [] # st) = True"
| "wf_state (BeginString, st) = True"
| "wf_state (ObjectKey, KeyFrame ms k # st) = True"
| "wf_state (EndValue, ArrayFrame (v # vs) # st) = True"
| "wf_state (EndValue, ObjectFrame (m # ms) # st) = True"
| "wf_state (EndTop v, st) = True"
| "wf_state _ = False"


section \<open>Integers\<close>

text \<open>
  \<open>strconv.ParseUint\<close>, \<open>strconv.ParseInt\<close> and \<open>strconv.Atoi\<close> for base 10 and 64 bits
  (Go's \<open>int\<close> on a 64-bit platform). Each returns a value together with the error:
  on a syntax error the value is 0; on a range error it is the bound nearest to the
  number, \<open>2^64 - 1\<close> for \<open>ParseUint\<close> and \<open>2^63 - 1\<close> or \<open>-2^63\<close> for \<open>ParseInt\<close>.
  \<open>ParseUint\<close> reads the digits from the left and reports the range error at the first
  digit where the number no longer fits, before looking at the bytes that follow.
  \<open>Atoi\<close> has a fast path for short inputs that returns what \<open>ParseInt\<close> returns.
\<close>

datatype num_error = ErrSyntax | ErrRange

definition maxUint64 :: int where
  "maxUint64 = 2 ^ 64 - 1"

fun ParseUint_digits :: "int \<Rightarrow> string \<Rightarrow> int \<times> num_error option" where
  "ParseUint_digits n [] = (n, None)"
| "ParseUint_digits n (c # cs) =
     (if \<not> is_digit c then (0, Some ErrSyntax)
      else if n \<ge> maxUint64 div 10 + 1 then (maxUint64, Some ErrRange)
      else if n * 10 + (of_char c - 0x30) > maxUint64 then (maxUint64, Some ErrRange)
      else ParseUint_digits (n * 10 + (of_char c - 0x30)) cs)"

definition ParseUint :: "string \<Rightarrow> int \<times> num_error option" where
  "ParseUint s = (if s = [] then (0, Some ErrSyntax) else ParseUint_digits 0 s)"

definition ParseInt :: "string \<Rightarrow> int \<times> num_error option" where
  "ParseInt s =
     (if s = [] then (0, Some ErrSyntax)
      else
        (let neg = (hd s = CHR ''-'');
             s' = (if hd s = CHR ''+'' \<or> hd s = CHR ''-'' then tl s else s)
         in case ParseUint s' of
              (un, Some ErrSyntax) \<Rightarrow> (0, Some ErrSyntax)
            | (un, _) \<Rightarrow>
                if \<not> neg \<and> un \<ge> 2 ^ 63 then (2 ^ 63 - 1, Some ErrRange)
                else if neg \<and> un > 2 ^ 63 then (- (2 ^ 63), Some ErrRange)
                else (if neg then - un else un, None)))"

definition Atoi :: "string \<Rightarrow> int \<times> num_error option" where
  "Atoi s = ParseInt s"

text \<open>
  What it means for a string to be a decimal integer, and its value: an optional sign
  followed by at least one digit.
\<close>

definition decimal_value :: "string \<Rightarrow> int" where
  "decimal_value ds = foldl (\<lambda>n c. n * 10 + (of_char c - 0x30)) 0 ds"

definition is_decimal_integer :: "string \<Rightarrow> bool" where
  "is_decimal_integer s =
     (case s of
        [] \<Rightarrow> False
      | c # cs \<Rightarrow>
          if c = CHR ''+'' \<or> c = CHR ''-'' then cs \<noteq> [] \<and> list_all is_digit cs
          else list_all is_digit s)"

definition integer_value :: "string \<Rightarrow> int" where
  "integer_value s =
     (case s of
        [] \<Rightarrow> 0
      | c # cs \<Rightarrow>
          if c = CHR ''-'' then - decimal_value cs
          else if c = CHR ''+'' then decimal_value cs
          else decimal_value s)"


section \<open>Decoding into the schema\<close>

text \<open>
  \<open>Unmarshal\<close> stores a JSON value into a Go value that already exists, by the kind of
  the target (\<open>literalStore\<close>, \<open>array\<close> and \<open>object\<close> of \<open>encoding/json\<close>). A mismatch of
  the JSON value and the target's kind is an \<open>*UnmarshalTypeError\<close>; its \<open>Value\<close> field
  names the JSON value. \<open>Unmarshal\<close> returns the first such error after having decoded
  the rest; since \<open>FromJSON\<close> drops the record on any error, the model stops at the
  first error.

  A slice is nil or has elements; the elements beyond its length that its backing array
  still holds are kept as well (second argument of \<open>Slice\<close>), because \<open>array\<close> decodes
  into them when it lengthens the slice again.
\<close>

datatype 'a slice = NilSlice | Slice "'a list" "'a list"

fun elems :: "'a slice \<Rightarrow> 'a list" where
  "elems NilSlice = []"
| "elems (Slice xs sp) = xs"

fun backing :: "'a slice \<Rightarrow> 'a list" where
  "backing NilSlice = []"
| "backing (Slice xs sp) = xs @ sp"

text \<open>The \<open>Value\<close> of an \<open>UnmarshalTypeError\<close>.\<close>

fun json_kind :: "json \<Rightarrow> string" where
  "json_kind JNull = ''null''"
| "json_kind (JBool _) = ''bool''"
| "json_kind (JNumber _) = ''number''"
| "json_kind (JString _) = ''string''"
| "json_kind (JArray _) = ''array''"
| "json_kind (JObject _) = ''object''"

text \<open>
  A \<open>float64\<close> target takes a number; \<open>null\<close> leaves any target that is not a pointer,
  slice, map or interface unchanged, without an error. The number is converted by
  \<open>strconv.ParseFloat\<close> at 64 bits, which fails when the literal is out of range.
  Floating-point numbers are not modelled: the type \<open>'f\<close> of \<open>float64\<close> values and the
  function \<open>ParseFloat\<close> from a literal to its value (\<open>None\<close> when out of range) are
  parameters; of \<open>'f\<close> only the zero value \<open>0\<close> is used.
\<close>

definition value_float64 :: "(string \<Rightarrow> 'f option) \<Rightarrow> json \<Rightarrow> 'f \<Rightarrow> error + 'f" where
  "value_float64 ParseFloat j old =
     (case j of
        JNull \<Rightarrow> Inr old
      | JNumber l \<Rightarrow>
          (case ParseFloat l of
             None \<Rightarrow> Inl (UnmarshalTypeError (''number '' @ l))
           | Some x \<Rightarrow> Inr x)
      | _ \<Rightarrow> Inl (UnmarshalTypeError (json_kind j)))"

text \<open>An \<open>int\<close> target takes a number that \<open>ParseInt\<close> reads without error.\<close>

definition value_int :: "json \<Rightarrow> int \<Rightarrow> error + int" where
  "value_int j old =
     (case j of
        JNull \<Rightarrow> Inr old
      | JNumber l \<Rightarrow>
          (case ParseInt l of
             (n, None) \<Rightarrow> Inr n
           | (n, Some _) \<Rightarrow> Inl (UnmarshalTypeError (''number '' @ l)))
      | _ \<Rightarrow> Inl (UnmarshalTypeError (json_kind j)))"

definition value_string :: "json \<Rightarrow> string \<Rightarrow> error + string" where
  "value_string j old =
     (case j of
        JNull \<Rightarrow> Inr old
      | JString s \<Rightarrow> Inr s
      | _ \<Rightarrow> Inl (UnmarshalTypeError (json_kind j)))"

text \<open>
  \<open>array\<close>: element \<open>i\<close> of the JSON array is decoded into element \<open>i\<close> of the backing
  array, or into a zero value beyond it. The slice then has as many elements as the JSON
  array. An empty JSON array gives a new empty slice, \<open>null\<close> the nil slice.
\<close>

fun array_elems :: "(json \<Rightarrow> 'a \<Rightarrow> error + 'a) \<Rightarrow> 'a \<Rightarrow> json list \<Rightarrow> 'a list \<Rightarrow> error + 'a list" where
  "array_elems val z [] old = Inr []"
| "array_elems val z (j # js) old =
     (case val j (case old of [] \<Rightarrow> z | x # _ \<Rightarrow> x) of
        Inl e \<Rightarrow> Inl e
      | Inr x \<Rightarrow>
          (case array_elems val z js (tl old) of
             Inl e \<Rightarrow> Inl e
           | Inr xs \<Rightarrow> Inr (x # xs)))"

definition value_slice ::
  "(json \<Rightarrow> 'a \<Rightarrow> error + 'a) \<Rightarrow> 'a \<Rightarrow> json \<Rightarrow> 'a slice \<Rightarrow> error + 'a slice" where
  "value_slice val z j s =
     (case j of
        JNull \<Rightarrow> Inr NilSlice
      | JArray js \<Rightarrow>
          (case array_elems val z js (backing s) of
             Inl e \<Rightarrow> Inl e
           | Inr xs \<Rightarrow>
               Inr (if js = [] then Slice [] [] else Slice xs (drop (length js) (backing s))))
      | _ \<Rightarrow> Inl (UnmarshalTypeError (json_kind j)))"

text \<open>
  \<open>object\<close>: a struct is described by the list of its fields, each with the name in its
  \<open>json\<close> tag. The members of the JSON object are taken in order. A member's name
  selects the field whose tag is equal to it or, failing that, the first field whose tag
  is equal to it up to case (\<open>foldName\<close>: ASCII letters are folded, and so are the two
  non-ASCII characters that fold to ASCII letters, U+017F to \<open>S\<close> and U+212A to \<open>K\<close>). The
  member's value is decoded into the current value of that field; a member that selects
  no field is skipped.
\<close>

type_synonym 's field = "string \<times> (json \<Rightarrow> 's \<Rightarrow> error + 's)"

definition field ::
  "(json \<Rightarrow> 'a \<Rightarrow> error + 'a) \<Rightarrow> ('s \<Rightarrow> 'a) \<Rightarrow> (('a \<Rightarrow> 'a) \<Rightarrow> 's \<Rightarrow> 's) \<Rightarrow> json \<Rightarrow> 's \<Rightarrow> error + 's" where
  "field val get upd j s =
     (case val j (get s) of
        Inl e \<Rightarrow> Inl e
      | Inr x \<Rightarrow> Inr (upd (\<lambda>_. x) s))"

fun foldName :: "string \<Rightarrow> string" where
  "foldName [] = []"
| "foldName (c # cs) =
     (if in_range c 0x61 0x7A then char_of (of_char c - (0x20 :: int)) # foldName cs
      else if c = CHR 0xC5 \<and> take 1 cs = [CHR 0xBF] then CHR ''S'' # foldName (drop 1 cs)
      else if c = CHR 0xE2 \<and> take 2 cs = [CHR 0x84, CHR 0xAA] then CHR ''K'' # foldName (drop 2 cs)
      else c # foldName cs)"

definition lookup_field :: "'s field list \<Rightarrow> string \<Rightarrow> 's field option" where
  "lookup_field flds key =
     (case find (\<lambda>f. fst f = key) flds of
        Some f \<Rightarrow> Some f
      | None \<Rightarrow> find (\<lambda>f. foldName (fst f) = foldName key) flds)"

fun object :: "'s field list \<Rightarrow> (string \<times> json) list \<Rightarrow> 's \<Rightarrow> error + 's" where
  "object flds [] s = Inr s"
| "object flds ((key, v) # ms) s =
     (case lookup_field flds key of
        None \<Rightarrow> object flds ms s
      | Some (_, store) \<Rightarrow>
          (case store v s of
             Inl e \<Rightarrow> Inl e
           | Inr s' \<Rightarrow> object flds ms s'))"

definition value_struct :: "'s field list \<Rightarrow> json \<Rightarrow> 's \<Rightarrow> error + 's" where
  "value_struct flds j s =
     (case j of
        JNull \<Rightarrow> Inr s
      | JObject ms \<Rightarrow> object flds ms s
      | _ \<Rightarrow> Inl (UnmarshalTypeError (json_kind j)))"

text \<open>The members of a JSON object whose name selects the field with a given tag.\<close>

definition members :: "string \<Rightarrow> (string \<times> json) list \<Rightarrow> (string \<times> json) list" where
  "members tag ms = filter (\<lambda>(key, v). foldName key = foldName tag) ms"


subsection \<open>The structs\<close>

text \<open>
  Each struct of the package is a record, followed by its zero value and by the list of
  its fields with their tags. \<open>DataBlock\<close> and \<open>alert\<close> reuse field names of \<open>DataPoint\<close>;
  below, \<open>DataPoint.Summary\<close>, \<open>DataPoint.Icon\<close> and \<open>DataPoint.Time\<close> are written with
  the record's name.
\<close>

record Flags =
  DarkSkyUnavailable :: string
  DarkSkyStations :: "string slice"
  DataPointStations :: "string slice"
  ISDStations :: "string slice"
  LAMPStations :: "string slice"
  METARStations :: "string slice"
  METNOLicense :: string
  Sources :: "string slice"
  Units :: string

record 'f DataPoint =
  Time :: 'f
  Summary :: string
  Icon :: string
  SunriseTime :: 'f
  SunsetTime :: 'f
  MoonPhase :: 'f
  PrecipIntensity :: 'f
  PrecipIntensityMax :: 'f
  PrecipIntensityMaxTime :: 'f
  PrecipProbability :: 'f
  PrecipType :: string
  PrecipAccumulation :: 'f
  TemperatureLow :: 'f
  Temperature :: 'f
  ApparentTemperature :: 'f
  TemperatureLowTime :: 'f
  TemperatureHigh :: 'f
  TemperatureHighTime :: 'f
  ApparentTemperatureHigh :: 'f
  ApparentTemperatureHighTime :: 'f
  ApparentTemperatureLow :: 'f
  ApparentTemperatureLowTime :: 'f
  TemperatureMin :: 'f
  TemperatureMinTime :: 'f
  TemperatureMax :: 'f
  TemperatureMaxTime :: 'f
  ApparentTemperatureMin :: 'f
  ApparentTemperatureMinTime :: 'f
  ApparentTemperatureMax :: 'f
  ApparentTemperatureMaxTime :: 'f
  DewPoint :: 'f
  Humidity :: 'f
  Pressure :: 'f
  WindSpeed :: 'f
  WindGust :: 'f
  WindGustTime :: 'f
  WindBearing :: 'f
  CloudCover :: 'f
  UVIndex :: int
  UVIndexTime :: int
  Ozone :: 'f
  Visibility :: 'f

definition zero_DataPoint :: "'f::zero DataPoint" where
  "zero_DataPoint =
     \<lparr>Time = 0, Summary = [], Icon = [], SunriseTime = 0, SunsetTime = 0, MoonPhase = 0,
      PrecipIntensity = 0, PrecipIntensityMax = 0, PrecipIntensityMaxTime = 0,
      PrecipProbability = 0, PrecipType = [], PrecipAccumulation = 0, TemperatureLow = 0,
      Temperature = 0, ApparentTemperature = 0, TemperatureLowTime = 0, TemperatureHigh = 0,
      TemperatureHighTime = 0, ApparentTemperatureHigh = 0, ApparentTemperatureHighTime = 0,
      ApparentTemperatureLow = 0, ApparentTemperatureLowTime = 0, TemperatureMin = 0,
      TemperatureMinTime = 0, TemperatureMax = 0, TemperatureMaxTime = 0,
      ApparentTemperatureMin = 0, ApparentTemperatureMinTime = 0, ApparentTemperatureMax = 0,
      ApparentTemperatureMaxTime = 0, DewPoint = 0, Humidity = 0, Pressure = 0, WindSpeed = 0,
      WindGust = 0, WindGustTime = 0, WindBearing = 0, CloudCover = 0, UVIndex = 0,
      UVIndexTime = 0, Ozone = 0, Visibility = 0\<rparr>"

definition DataPoint_fields :: "(string \<Rightarrow> 'f option) \<Rightarrow> 'f DataPoint field list" where
  "DataPoint_fields ParseFloat =
     [(''time'', field (value_float64 ParseFloat) Time Time_update),
      (''summary'', field value_string Summary Summary_update),
      (''icon'', field value_string Icon Icon_update),
      (''sunrise_time'', field (value_float64 ParseFloat) SunriseTime SunriseTime_update),
      (''sunset_time'', field (value_float64 ParseFloat) SunsetTime SunsetTime_update),
      (''moon_phase'', field (value_float64 ParseFloat) MoonPhase MoonPhase_update),
      (''precipIntensity'', field (value_float64 ParseFloat) PrecipIntensity PrecipIntensity_update),
      (''precipIntensityMax'',
         field (value_float64 ParseFloat) PrecipIntensityMax PrecipIntensityMax_update),
      (''precipIntensityMaxTime'',
         field (value_float64 ParseFloat) PrecipIntensityMaxTime PrecipIntensityMaxTime_update),
      (''precipProbability'',
         field (value_float64 ParseFloat) PrecipProbability PrecipProbability_update),
      (''precipType'', field value_string PrecipType PrecipType_update),
      (''precipAccumulation'',
         field (value_float64 ParseFloat) PrecipAccumulation PrecipAccumulation_update),
      (''temperatureLow'', field (value_float64 ParseFloat) TemperatureLow TemperatureLow_update),
      (''temperature'', field (value_float64 ParseFloat) Temperature Temperature_update),
      (''apparentTemperature'',
         field (value_float64 ParseFloat) ApparentTemperature ApparentTemperature_update),
      (''temperatureLowTime'',
         field (value_float64 ParseFloat) TemperatureLowTime TemperatureLowTime_update),
      (''temperatureHigh'', field (value_float64 ParseFloat) TemperatureHigh TemperatureHigh_update),
      (''temperatureHighTime'',
         field (value_float64 ParseFloat) TemperatureHighTime TemperatureHighTime_update),
      (''apparentTemperatureHigh'',
         field (value_float64 ParseFloat) ApparentTemperatureHigh ApparentTemperatureHigh_update),
      (''apparentTemperatureHighTime'',
         field (value_float64 ParseFloat) ApparentTemperatureHighTime
           ApparentTemperatureHighTime_update),
      (''apparentTemperatureLow'',
         field (value_float64 ParseFloat) ApparentTemperatureLow ApparentTemperatureLow_update),
      (''apparentTemperatureLowTime'',
         field (value_float64 ParseFloat) ApparentTemperatureLowTime
           ApparentTemperatureLowTime_update),
      (''temperature_min'', field (value_float64 ParseFloat) TemperatureMin TemperatureMin_update),
      (''temperature_min_time'',
         field (value_float64 ParseFloat) TemperatureMinTime TemperatureMinTime_update),
      (''temperature_max'', field (value_float64 ParseFloat) TemperatureMax TemperatureMax_update),
      (''temperature_max_time'',
         field (value_float64 ParseFloat) TemperatureMaxTime TemperatureMaxTime_update),
      (''apparentTemperatureMin'',
         field (value_float64 ParseFloat) ApparentTemperatureMin ApparentTemperatureMin_update),
      (''apparentTemperatureMinTime'',
         field (value_float64 ParseFloat) ApparentTemperatureMinTime
           ApparentTemperatureMinTime_update),
      (''apparentTemperatureMax'',
         field (value_float64 ParseFloat) ApparentTemperatureMax ApparentTemperatureMax_update),
      (''apparentTemperatureMaxTime'',
         field (value_float64 ParseFloat) ApparentTemperatureMaxTime
           ApparentTemperatureMaxTime_update),
      (''dew_point'', field (value_float64 ParseFloat) DewPoint DewPoint_update),
      (''humidity'', field (value_float64 ParseFloat) Humidity Humidity_update),
      (''pressure'', field (value_float64 ParseFloat) Pressure Pressure_update),
      (''windSpeed'', field (value_float64 ParseFloat) WindSpeed WindSpeed_update),
      (''windGust'', field (value_float64 ParseFloat) WindGust WindGust_update),
      (''windGustTime'', field (value_float64 ParseFloat) WindGustTime WindGustTime_update),
      (''windBearing'', field (value_float64 ParseFloat) WindBearing WindBearing_update),
      (''cloudCover'', field (value_float64 ParseFloat) CloudCover CloudCover_update),
      (''uvIndex'', field value_int UVIndex UVIndex_update),
      (''uvIndexTime'', field value_int UVIndexTime UVIndexTime_update),
      (''ozone'', field (value_float64 ParseFloat) Ozone Ozone_update),
      (''visibility'', field (value_float64 ParseFloat) Visibility Visibility_update)]"

definition zero_Flags :: Flags where
  "zero_Flags =
     \<lparr>DarkSkyUnavailable = [], DarkSkyStations = NilSlice, DataPointStations = NilSlice,
      ISDStations = NilSlice, LAMPStations = NilSlice, METARStations = NilSlice,
      METNOLicense = [], Sources = NilSlice, Units = []\<rparr>"

definition Flags_fields :: "Flags field list" where
  "Flags_fields =
     [(''darksky-unavailable'', field value_string DarkSkyUnavailable DarkSkyUnavailable_update),
      (''darksky-stations'', field (value_slice value_string []) DarkSkyStations DarkSkyStations_update),
      (''datapoint-stations'',
         field (value_slice value_string []) DataPointStations DataPointStations_update),
      (''isds-stations'', field (value_slice value_string []) ISDStations ISDStations_update),
      (''lamp-stations'', field (value_slice value_string []) LAMPStations LAMPStations_update),
      (''metars-stations'', field (value_slice value_string []) METARStations METARStations_update),
      (''metnol-license'', field value_string METNOLicense METNOLicense_update),
      (''sources'', field (value_slice value_string []) Sources Sources_update),
      (''units'', field value_string Units Units_update)]"

record 'f DataBlock =
  Summary :: string
  Icon :: string
  Data :: "'f DataPoint slice"

definition zero_DataBlock :: "'f DataBlock" where
  "zero_DataBlock = \<lparr>Summary = [], Icon = [], Data = NilSlice\<rparr>"

definition DataBlock_fields :: "(string \<Rightarrow> 'f::zero option) \<Rightarrow> 'f DataBlock field list" where
  "DataBlock_fields ParseFloat =
     [(''summary'', field value_string Summary Summary_update),
      (''icon'', field value_string Icon Icon_update),
      (''data'',
         field (value_slice (value_struct (DataPoint_fields ParseFloat)) zero_DataPoint)
           Data Data_update)]"

record 'f alert =
  Title :: string
  Description :: string
  Time :: 'f
  Expires :: 'f
  URI :: string

definition zero_alert :: "'f::zero alert" where
  "zero_alert = \<lparr>Title = [], Description = [], Time = 0, Expires = 0, URI = []\<rparr>"

definition alert_fields :: "(string \<Rightarrow> 'f option) \<Rightarrow> 'f alert field list" where
  "alert_fields ParseFloat =
     [(''title'', field value_string Title Title_update),
      (''description'', field value_string Description Description_update),
      (''time'', field (value_float64 ParseFloat) Time Time_update),
      (''expires'', field (value_float64 ParseFloat) Expires Expires_update),
      (''uri'', field value_string URI URI_update)]"

record 'f Forecast =
  Latitude :: 'f
  Longitude :: 'f
  Timezone :: string
  Offset :: 'f
  Currently :: "'f DataPoint"
  Minutely :: "'f DataBlock"
  Hourly :: "'f DataBlock"
  Daily :: "'f DataBlock"
  Alerts :: "'f alert slice"
  Flags :: Flags
  APICalls :: int
  Code :: int

definition zero_Forecast :: "'f::zero Forecast" where
  "zero_Forecast =
     \<lparr>Latitude = 0, Longitude = 0, Timezone = [], Offset = 0, Currently = zero_DataPoint,
      Minutely = zero_DataBlock, Hourly = zero_DataBlock, Daily = zero_DataBlock,
      Alerts = NilSlice, Flags = zero_Flags, APICalls = 0, Code = 0\<rparr>"

definition Forecast_fields :: "(string \<Rightarrow> 'f::zero option) \<Rightarrow> 'f Forecast field list" where
  "Forecast_fields ParseFloat =
     [(''latitude'', field (value_float64 ParseFloat) Latitude Latitude_update),
      (''longitude'', field (value_float64 ParseFloat) Longitude Longitude_update),
      (''timezone'', field value_string Timezone Timezone_update),
      (''offset'', field (value_float64 ParseFloat) Offset Offset_update),
      (''currently'', field (value_struct (DataPoint_fields ParseFloat)) Currently Currently_update),
      (''minutely'', field (value_struct (DataBlock_fields ParseFloat)) Minutely Minutely_update),
      (''hourly'', field (value_struct (DataBlock_fields ParseFloat)) Hourly Hourly_update),
      (''daily'', field (value_struct (DataBlock_fields ParseFloat)) Daily Daily_update),
      (''alerts'',
         field (value_slice (value_struct (alert_fields ParseFloat)) zero_alert) Alerts Alerts_update),
      (''flags'', field (value_struct Flags_fields) Flags Flags_update),
      (''apicalls'', field value_int APICalls APICalls_update),
      (''code'', field value_int Code Code_update)]"

subsection \<open>FromJSON\<close>

text \<open>
  \<open>json.Unmarshal(jsonBlob, &f)\<close> with \<open>f\<close> a \<open>Forecast\<close>: \<open>Inl\<close> is the error returned,
  \<open>Inr\<close> the value of \<open>f\<close> afterwards. \<open>FromJSON\<close> starts from the zero value and
  returns \<open>nil, err\<close> or \<open>&f, nil\<close>. (Its \<open>log.Println\<close> calls are not modelled.)
\<close>

definition Unmarshal :: "(string \<Rightarrow> 'f::zero option) \<Rightarrow> string \<Rightarrow> 'f Forecast \<Rightarrow> error + 'f Forecast" where
  "Unmarshal ParseFloat data f =
     (case parse_json data of
        None \<Rightarrow> Inl SyntaxError
      | Some j \<Rightarrow> value_struct (Forecast_fields ParseFloat) j f)"

definition FromJSON :: "(string \<Rightarrow> 'f::zero option) \<Rightarrow> string \<Rightarrow> 'f Forecast option \<times> error option" where
  "FromJSON ParseFloat jsonBlob =
     (case Unmarshal ParseFloat jsonBlob zero_Forecast of
        Inl err \<Rightarrow> (None, Some err)
      | Inr f \<Rightarrow> (Some f, None))"

section \<open>Get\<close>

text \<open>
  \<open>res.Header.Get(key)\<close> looks up the canonical form of the key and returns the first
  value stored under it, or the empty string. The canonical form has an upper-case
  letter at the start and after each hyphen and lower-case letters elsewhere; a key with
  a byte that is not allowed in a header name is left as it is.
\<close>

definition validHeaderFieldByte :: "char \<Rightarrow> bool" where
  "validHeaderFieldByte c =
     (in_range c 0x30 0x39 \<or> in_range c 0x41 0x5A \<or> in_range c 0x61 0x7A \<or>
      c \<in> set [CHR ''!'', CHR ''#'', CHR ''$'', CHR ''%'', CHR ''&'', CHR 0x27, CHR ''*'', CHR ''+'',
                 CHR ''-'', CHR ''.'', CHR ''^'', CHR ''_'', CHR 0x60, CHR ''|'', CHR ''~''])"

fun canonicalMIMEHeaderKey :: "bool \<Rightarrow> string \<Rightarrow> string" where
  "canonicalMIMEHeaderKey upper [] = []"
| "canonicalMIMEHeaderKey upper (c # cs) =
     (let c' = (if upper \<and> in_range c 0x61 0x7A then char_of (of_char c - (0x20 :: int))
                else if \<not> upper \<and> in_range c 0x41 0x5A then char_of (of_char c + (0x20 :: int))
                else c)
      in c' # canonicalMIMEHeaderKey (c' = CHR ''-'') cs)"

definition CanonicalMIMEHeaderKey :: "string \<Rightarrow> string" where
  "CanonicalMIMEHeaderKey s =
     (if list_all validHeaderFieldByte s then canonicalMIMEHeaderKey True s else s)"

definition Header_Get :: "(string \<rightharpoonup> string list) \<Rightarrow> string \<Rightarrow> string" where
  "Header_Get h key =
     (case h (CanonicalMIMEHeaderKey key) of
        None \<Rightarrow> []
      | Some [] \<Rightarrow> []
      | Some (v # _) \<Rightarrow> v)"

text \<open>
  \<open>Get\<close>: the request, the body, the decoding, then the header. The branches that
  dereference a nil pointer cannot be reached (\<open>GetResponse\<close> and \<open>FromJSON\<close> return a
  value whenever they return no error). The deferred \<open>res.Body.Close()\<close> is not modelled.
\<close>

definition Get ::
  "transport \<Rightarrow> (string \<Rightarrow> 'f::zero option) \<Rightarrow> string \<Rightarrow> string \<Rightarrow> string \<Rightarrow> string \<Rightarrow> Units
     \<Rightarrow> string list \<Rightarrow> ('f Forecast option \<times> error option) \<times> string list" where
  "Get http_Get ParseFloat key lat long time units requested =
     (case GetResponse http_Get key lat long time units requested of
        ((res, Some err), requested') \<Rightarrow> ((None, Some err), requested')
      | ((None, None), requested') \<Rightarrow> ((None, Some NilDereference), requested')
      | ((Some res, None), requested') \<Rightarrow>
          (case Body res of
             (body, Some err) \<Rightarrow> ((None, Some err), requested')
           | (body, None) \<Rightarrow>
               (case FromJSON ParseFloat body of
                  (f, Some err) \<Rightarrow> ((None, Some err), requested')
                | (None, None) \<Rightarrow> ((None, Some NilDereference), requested')
                | (Some f, None) \<Rightarrow>
                    (let (calls, _) = Atoi (Header_Get (Header res) ''X-Forecast-API-Calls'')
                     in ((Some (f\<lparr>APICalls := calls\<rparr>), None), requested')))))"

text \<open>
  For evaluating the functions on concrete inputs: \<open>strconv.ParseFloat\<close> on the integer
  literals of magnitude at most \<open>2^53\<close>, whose \<open>float64\<close> value is the integer itself.
  Other literals are outside its domain; it is applied only to inputs without them.
\<close>

definition ParseFloat_integral :: "string \<Rightarrow> int option" where
  "ParseFloat_integral l =
     (case ParseInt l of
        (n, None) \<Rightarrow> if - (2 ^ 53) \<le> n \<and> n \<le> 2 ^ 53 then Some n else None
      | _ \<Rightarrow> None)"


text \<open>A transport that answers every request with the same headers and body.\<close>

definition stub_transport :: "(string \<rightharpoonup> string list) \<Rightarrow> string \<Rightarrow> transport" where
  "stub_transport h body = (\<lambda>url. HttpOk \<lparr>Header = h, Body = (body, None)\<rparr>)"


text \<open>A payload with the three data blocks and two alerts, and the record it decodes to.\<close>

definition blocks_payload :: string where
  \<open>blocks_payload =
     ''{"minutely": {"data": [{"time": 1}, {"time": 2}]}, '' @
     ''"hourly": {"data": [{"time": 3}, {"time": 4}, {"time": 5}]}, '' @
     ''"daily": {"data": [{"time": 6}]}, '' @
     ''"alerts": [{"title": "wind"}, {"title": "flood"}]}''\<close>

definition blocks_record :: "int Forecast" where
  "blocks_record =
     zero_Forecast
       \<lparr>Minutely := zero_DataBlock
          \<lparr>Data := Slice [zero_DataPoint\<lparr>DataPoint.Time := 1\<rparr>, zero_DataPoint\<lparr>DataPoint.Time := 2\<rparr>] []\<rparr>,
        Hourly := zero_DataBlock
          \<lparr>Data := Slice [zero_DataPoint\<lparr>DataPoint.Time := 3\<rparr>, zero_DataPoint\<lparr>DataPoint.Time := 4\<rparr>,
                          zero_DataPoint\<lparr>DataPoint.Time := 5\<rparr>] []\<rparr>,
        Daily := zero_DataBlock \<lparr>Data := Slice [zero_DataPoint\<lparr>DataPoint.Time := 6\<rparr>] []\<rparr>,
        Alerts := Slice [zero_alert\<lparr>Title := ''wind''\<rparr>, zero_alert\<lparr>Title := ''flood''\<rparr>] []\<rparr>"

text \<open>
  A payload whose \<open>minutely\<close> object has two members that select the field \<open>Data\<close>:
  \<open>data\<close> with two data points and \<open>DATA\<close> with one.
\<close>

definition folded_key_payload :: string where
  \<open>folded_key_payload =
     ''{"minutely": {"data": [{"time": 1}, {"time": 2}], "DATA": [{"time": 9}]}}''\<close>


section \<open>The request URL\<close>

text \<open>\<open>Get\<close> sends the request of \<open>GetResponse\<close> and no other.\<close>

lemma Get_requested:
  "snd (Get http_Get ParseFloat key lat long time units requested) =
     snd (GetResponse http_Get key lat long time units requested)"
  by (simp add: Get_def split: prod.splits option.splits)

text \<open>
  C1: for \<open>time = "now"\<close> the URL requested by \<open>GetResponse\<close>, and so by \<open>Get\<close>, is
  \<open>{base}/{apiKey}/{lat},{long}?units={units}\<close>, with no time segment; for every other
  non-empty \<open>time\<close> it is \<open>{base}/{apiKey}/{lat},{long},{time}?units={units}\<close>; the base
  is the constant \<open>https://api.forecast.io/forecast\<close>.
\<close>

theorem GetResponse_url:
  "(time = ''now'' \<longrightarrow>
      snd (GetResponse http_Get key lat long time units requested) =
        requested @ [''https://api.forecast.io/forecast/'' @ key @ ''/'' @ lat @ '','' @ long
                       @ ''?units='' @ units] \<and>
      snd (Get http_Get ParseFloat key lat long time units requested) =
        requested @ [''https://api.forecast.io/forecast/'' @ key @ ''/'' @ lat @ '','' @ long
                       @ ''?units='' @ units]) \<and>
   (time \<noteq> ''now'' \<and> time \<noteq> [] \<longrightarrow>
      snd (GetResponse http_Get key lat long time units requested) =
        requested @ [''https://api.forecast.io/forecast/'' @ key @ ''/'' @ lat @ '','' @ long
                       @ '','' @ time @ ''?units='' @ units] \<and>
      snd (Get http_Get ParseFloat key lat long time units requested) =
        requested @ [''https://api.forecast.io/forecast/'' @ key @ ''/'' @ lat @ '','' @ long
                       @ '','' @ time @ ''?units='' @ units])"
  by (simp add: Get_requested GetResponse_def Let_def BASEURL_def)

theorem GetResponse_url_witness:
  "snd (GetResponse (\<lambda>_. HttpFail None (HttpError ''down'')) ''KEY'' ''37.8'' ''-122.4'' ''now'' US [])
     = [''https://api.forecast.io/forecast/KEY/37.8,-122.4?units=us''] \<and>
   snd (Get (\<lambda>_. HttpFail None (HttpError ''down'')) ParseFloat_integral ''KEY'' ''37.8'' ''-122.4''
          ''1449446400'' CA [])
     = [''https://api.forecast.io/forecast/KEY/37.8,-122.4,1449446400?units=ca'']"
proof -
  have a: "''1449446400'' \<noteq> ''now'' \<and> ''1449446400'' \<noteq> []" by simp
  note n = GetResponse_url [where time = "''now''" and http_Get = "\<lambda>_. HttpFail None (HttpError ''down'')"
             and key = "''KEY''" and lat = "''37.8''" and long = "''-122.4''" and units = US
             and requested = "[]" and ParseFloat = ParseFloat_integral, THEN conjunct1, THEN mp, OF refl]
  note t = GetResponse_url [where time = "''1449446400''"
             and http_Get = "\<lambda>_. HttpFail None (HttpError ''down'')"
             and key = "''KEY''" and lat = "''37.8''" and long = "''-122.4''" and units = CA
             and requested = "[]" and ParseFloat = ParseFloat_integral, THEN conjunct2, THEN mp, OF a]
  from n [THEN conjunct1] t [THEN conjunct2] show ?thesis
    by (simp add: US_def CA_def)
qed

text \<open>
  C9: the time segment is omitted only for the string \<open>now\<close>; for the empty string the
  URL still gets the comma and the empty third component:
  \<open>{base}/{apiKey}/{lat},{long},?units={units}\<close>.
\<close>

theorem GetResponse_url_empty_time:
  "snd (GetResponse http_Get key lat long [] units requested) =
     requested @ [''https://api.forecast.io/forecast/'' @ key @ ''/'' @ lat @ '','' @ long @ '',''
                    @ ''?units='' @ units] \<and>
   snd (Get http_Get ParseFloat key lat long [] units requested) =
     requested @ [''https://api.forecast.io/forecast/'' @ key @ ''/'' @ lat @ '','' @ long @ '',''
                    @ ''?units='' @ units] \<and>
   (snd (GetResponse http_Get key lat long time units requested) =
      requested @ [''https://api.forecast.io/forecast/'' @ key @ ''/'' @ lat @ '','' @ long
                     @ ''?units='' @ units]
    \<longleftrightarrow> time = ''now'')"
  by (simp add: Get_requested GetResponse_def Let_def BASEURL_def)


section \<open>The scanner accepts JSON texts only\<close>

text \<open>
  Every step of the scanner extends the tokens read so far by the token it is given, so
  that the tokens of an accepted text are the tokens of the value returned.
\<close>

lemma sep_snoc: "sep (xs @ [x]) = (if xs = [] then x else sep xs @ TComma # x)"
  by (induction xs rule: sep.induct) simp_all

lemma below_Cons: "below (f # st) = below st @ awaiting f"
  by (simp add: below_def)

lemma end_value_consumed:
  "end_value v st = Some s' \<Longrightarrow> wf_state s' \<and> consumed s' = below st @ tokens_of v"
  by (induction v st rule: end_value.induct) (auto simp add: below_def sep_snoc)

lemma begin_value_consumed:
  "begin_value t st = Some s' \<Longrightarrow> wf_state s' \<and> consumed s' = below st @ [t]"
  by (cases t) (auto simp add: below_Cons split: if_splits dest!: end_value_consumed)

lemma scan_step_consumed:
  assumes "scan_step t s = Some s'" and "wf_state s"
  shows "wf_state s' \<and> consumed s' = consumed s @ [t]"
  using assms
  by (cases s rule: wf_state.cases)
     (auto simp add: below_Cons sep_snoc split: token.splits list.splits frame.splits if_splits
           dest!: end_value_consumed begin_value_consumed)

lemma scan_tokens_consumed:
  "scan_tokens ts s = Some s' \<Longrightarrow> wf_state s \<Longrightarrow> wf_state s' \<and> consumed s' = consumed s @ ts"
proof (induction ts arbitrary: s)
  case Nil
  then show ?case by simp
next
  case (Cons t ts)
  from Cons.prems(1) obtain s1 where 1: "scan_step t s = Some s1" and 2: "scan_tokens ts s1 = Some s'"
    by (auto split: option.splits)
  from scan_step_consumed [OF 1 Cons.prems(2)] Cons.IH [OF 2] show ?case by simp
qed

lemma scan_tokens_tokens_of:
  assumes "scan_tokens ts (BeginValue, []) = Some (EndTop v, st)"
  shows "ts = tokens_of v"
  using scan_tokens_consumed [OF assms] by (simp add: below_def)

text \<open>The tokens of a value are derived by the grammar.\<close>

lemma element_tokens_sep:
  "xs \<noteq> [] \<Longrightarrow> \<forall>x\<in>set xs. value_tokens x \<Longrightarrow> element_tokens (sep xs)"
  by (induction xs rule: sep.induct) (auto intro: value_tokens_element_tokens_member_tokens.intros)

lemma member_tokens_sep:
  "ms \<noteq> [] \<Longrightarrow> \<forall>m\<in>set ms. value_tokens (tokens_of (snd m)) \<Longrightarrow>
   member_tokens (sep (map member_of ms))"
proof (induction ms)
  case Nil
  then show ?case by simp
next
  case (Cons m ms)
  show ?case
  proof (cases ms)
    case Nil
    with Cons.prems show ?thesis
      by (auto intro: value_tokens_element_tokens_member_tokens.intros)
  next
    case (Cons m' ms')
    with Cons.prems Cons.IH have "member_tokens (sep (map member_of ms))" by simp
    with Cons Cons.prems show ?thesis
      by (auto intro: value_tokens_element_tokens_member_tokens.intros)
  qed
qed

lemma value_tokens_tokens_of: "value_tokens (tokens_of v)"
proof (induction v)
  case (JArray vs)
  show ?case
  proof (cases vs)
    case Nil
    then show ?thesis by (auto intro: value_tokens_element_tokens_member_tokens.intros)
  next
    case (Cons a as)
    with JArray have "element_tokens (sep (map tokens_of vs))"
      by (intro element_tokens_sep) auto
    then show ?thesis by (auto intro: value_tokens_element_tokens_member_tokens.intros)
  qed
next
  case (JObject ms)
  show ?case
  proof (cases ms)
    case Nil
    then show ?thesis by (auto intro: value_tokens_element_tokens_member_tokens.intros)
  next
    case (Cons a as)
    have "\<forall>m\<in>set ms. value_tokens (tokens_of (snd m))"
    proof
      fix m assume "m \<in> set ms"
      moreover have "snd m \<in> Basic_BNFs.snds m" by (cases m) simp
      ultimately show "value_tokens (tokens_of (snd m))" by (rule JObject)
    qed
    with Cons have "member_tokens (sep (map member_of ms))"
      by (intro member_tokens_sep) auto
    then show ?thesis by (auto intro: value_tokens_element_tokens_member_tokens.intros)
  qed
qed (auto intro: value_tokens_element_tokens_member_tokens.intros)

lemma scan_string_chars:
  "scan_string acc cs = Some (raw, rest) \<Longrightarrow>
   \<exists>b. cs = b @ CHR 0x22 # rest \<and> raw = rev acc @ b \<and> string_chars b"
proof (induction acc cs rule: scan_string.induct)
  case (1 acc)
  then show ?case by simp
next
  case (2 acc c cs)
  show ?case
  proof (cases "c = CHR 0x22")
    case True
    with "2.prems" show ?thesis by (auto intro: string_chars.intros)
  next
    case nq: False
    show ?thesis
    proof (cases "c = CHR 0x5C")
      case True
      with nq "2.prems" obtain e es where cs: "cs = e # es"
        by (cases cs) auto
      show ?thesis
      proof (cases "is_simple_escape e")
        case se: True
        with True nq cs "2.prems" have "scan_string (e # c # acc) es = Some (raw, rest)" by simp
        from "2.IH"(1) [OF nq True cs se this] obtain b where
          "es = b @ CHR 0x22 # rest" "raw = rev (e # c # acc) @ b" "string_chars b" by blast
        with True cs se show ?thesis
          by (intro exI [of _ "CHR 0x5C # e # b"]) (auto intro: string_chars.intros)
      next
        case nse: False
        with True nq cs "2.prems" have u: "e = CHR ''u''" by (auto split: if_splits)
        with True nq cs nse "2.prems" obtain h1 h2 h3 h4 r where
          es: "es = h1 # h2 # h3 # h4 # r" and hx: "is_hex h1 \<and> is_hex h2 \<and> is_hex h3 \<and> is_hex h4"
          and sc: "scan_string (h4 # h3 # h2 # h1 # e # c # acc) r = Some (raw, rest)"
          by (auto split: list.splits if_splits)
        from "2.IH"(2) [OF nq True cs nse u es refl refl refl hx sc] obtain b where
          "r = b @ CHR 0x22 # rest" "raw = rev (h4 # h3 # h2 # h1 # e # c # acc) @ b" "string_chars b"
          by blast
        with True cs u es hx show ?thesis
          by (intro exI [of _ "CHR 0x5C # CHR ''u'' # h1 # h2 # h3 # h4 # b"])
             (auto intro: string_chars.intros)
      qed
    next
      case nb: False
      with nq "2.prems" have ge: "\<not> of_char c < (0x20 :: int)"
        and sc: "scan_string (c # acc) cs = Some (raw, rest)"
        by (auto split: if_splits)
      from "2.IH"(3) [OF nq nb ge sc] obtain b where
        "cs = b @ CHR 0x22 # rest" "raw = rev (c # acc) @ b" "string_chars b" by blast
      with nq nb ge show ?thesis
        by (intro exI [of _ "c # b"]) (auto intro: string_chars.intros)
    qed
  qed
qed

text \<open>The text of a number read by the scanner is a number of the grammar.\<close>

lemma scan_int_text: "scan_int cs = Some (i, r) \<Longrightarrow> cs = i @ r \<and> number_int i"
  by (auto simp add: scan_int_def number_int_def list_all_iff split: list.splits if_splits
           dest: set_takeWhileD)

lemma scan_frac_text: "scan_frac cs = Some (f, r) \<Longrightarrow> cs = f @ r \<and> (f = [] \<or> number_frac f)"
  by (auto simp add: scan_frac_def number_frac_def list_all_iff split: list.splits if_splits
           dest: set_takeWhileD)

lemma scan_exp_text: "scan_exp cs = Some (e, r) \<Longrightarrow> cs = e @ r \<and> (e = [] \<or> number_exp e)"
proof (cases cs)
  case Nil
  then show "scan_exp cs = Some (e, r) \<Longrightarrow> cs = e @ r \<and> (e = [] \<or> number_exp e)"
    by (simp add: scan_exp_def)
next
  case (Cons c t)
  assume a: "scan_exp cs = Some (e, r)"
  show "cs = e @ r \<and> (e = [] \<or> number_exp e)"
  proof (cases "c = CHR ''e'' \<or> c = CHR ''E''")
    case False
    with a Cons show ?thesis by (simp add: scan_exp_def)
  next
    case True
    define sign where "sign = (case t of [] \<Rightarrow> [] | s # u \<Rightarrow> if s = CHR ''+'' \<or> s = CHR ''-'' then [s] else [])"
    define r' where "r' = (case t of [] \<Rightarrow> [] | s # u \<Rightarrow> if s = CHR ''+'' \<or> s = CHR ''-'' then u else t)"
    have t: "t = sign @ r'" and sg: "sign = [] \<or> sign = ''+'' \<or> sign = ''-''"
      by (auto simp add: sign_def r'_def split: list.splits)
    from a Cons True have ne: "takeWhile is_digit r' \<noteq> []"
      and e: "e = c # sign @ takeWhile is_digit r'" and r: "r = dropWhile is_digit r'"
      by (auto simp add: scan_exp_def sign_def r'_def Let_def split: list.splits if_splits)
    have "list_all is_digit (takeWhile is_digit r')"
      by (auto simp add: list_all_iff dest: set_takeWhileD)
    with True sg ne e have "number_exp e"
      unfolding number_exp_def by blast
    moreover from Cons t e r have "cs = e @ r" by simp
    ultimately show ?thesis by simp
  qed
qed

lemma scan_number_text:
  assumes "scan_number cs = Some (l, rest)"
  shows "cs = l @ rest \<and> number_text l"
proof -
  define sign where "sign = (case cs of [] \<Rightarrow> [] | c # r \<Rightarrow> if c = CHR ''-'' then [c] else [])"
  define r0 where "r0 = (case cs of [] \<Rightarrow> [] | c # r \<Rightarrow> if c = CHR ''-'' then r else cs)"
  have cs: "cs = sign @ r0" and sg: "sign = [] \<or> sign = ''-''"
    by (auto simp add: sign_def r0_def split: list.splits)
  from assms obtain i r1 f r2 e where
    1: "scan_int r0 = Some (i, r1)" and 2: "scan_frac r1 = Some (f, r2)"
    and 3: "scan_exp r2 = Some (e, rest)" and l: "l = sign @ i @ f @ e"
    by (auto simp add: scan_number_def sign_def r0_def Let_def
             split: list.splits if_splits option.splits)
  from scan_int_text [OF 1] scan_frac_text [OF 2] scan_exp_text [OF 3] sg l
  have "number_text l" unfolding number_text_def by blast
  moreover from scan_int_text [OF 1] scan_frac_text [OF 2] scan_exp_text [OF 3] cs l
  have "cs = l @ rest" by simp
  ultimately show ?thesis by simp
qed

lemma spells_space:
  assumes "isSpace c" and "spells ts cs"
  shows "spells ts (c # cs)"
  using assms(2)
proof (cases rule: spells.cases)
  case 1
  with assms(1) show ?thesis by (auto intro: spells.intros)
next
  case (2 w t s ts' rest)
  with assms(1) have "spells (t # ts') ((c # w) @ s @ rest)"
    by (intro spells.intros) auto
  with 2 show ?thesis by simp
qed

lemma spells_token: "token_text t s \<Longrightarrow> spells ts rest \<Longrightarrow> spells (t # ts) (s @ rest)"
  using spells.intros(2) [of "[]" t s ts rest] by simp

lemma value_tokens_nonempty: "value_tokens ts \<Longrightarrow> ts \<noteq> []"
  by (erule value_tokens.cases) simp_all

lemma token_text_nonempty: "token_text t s \<Longrightarrow> s \<noteq> []"
  by (erule token_text.cases) (auto simp add: number_text_def number_int_def)

lemma not_JSON_text_empty: "\<not> JSON_text []"
proof
  assume "JSON_text []"
  then obtain ts where s: "spells ts []" and v: "value_tokens ts"
    unfolding JSON_text_def by blast
  from v have "ts \<noteq> []" by (rule value_tokens_nonempty)
  with s show False
    by (cases rule: spells.cases) (auto dest: token_text_nonempty)
qed

text \<open>The text that \<open>lex\<close> accepts spells the tokens it returns.\<close>

lemma lex_structural:
  assumes "lex (c # cs) = Some ts" and "\<not> isSpace c"
    and "(c, t) \<in> set [(CHR ''{'', TBeginObject), (CHR ''}'', TEndObject), (CHR ''['', TBeginArray),
                        (CHR '']'', TEndArray), (CHR '':'', TColon), (CHR '','', TComma)]"
  shows "\<exists>ts'. lex cs = Some ts' \<and> ts = t # ts' \<and> token_text t [c]"
  using assms by (auto simp add: token_text.intros)

lemma lex_Cons_token:
  assumes l: "lex (c # cs) = Some ts" and ns: "\<not> isSpace c"
  shows "\<exists>t s rest ts'. c # cs = s @ rest \<and> token_text t s \<and> lex rest = Some ts' \<and>
           ts = t # ts' \<and> length rest < length (c # cs)"
proof -
  consider (structural) t where
      "(c, t) \<in> set [(CHR ''{'', TBeginObject), (CHR ''}'', TEndObject), (CHR ''['', TBeginArray),
                      (CHR '']'', TEndArray), (CHR '':'', TColon), (CHR '','', TComma)]"
    | (st) "c = CHR 0x22"
    | (nu) "c = CHR ''-'' \<or> is_digit c"
    | (other) "c \<noteq> CHR ''{''" "c \<noteq> CHR ''}''" "c \<noteq> CHR ''[''" "c \<noteq> CHR '']''" "c \<noteq> CHR '':''"
        "c \<noteq> CHR '',''" "c \<noteq> CHR 0x22" "\<not> (c = CHR ''-'' \<or> is_digit c)"
    by auto
  then show ?thesis
  proof cases
    case structural
    from lex_structural [OF l ns structural] obtain ts' where
      "lex cs = Some ts'" "ts = t # ts'" "token_text t [c]" by blast
    then show ?thesis
      by (intro exI [of _ t] exI [of _ "[c]"] exI [of _ cs] exI [of _ ts']) simp
  next
    case st
    with l ns have "\<exists>raw rest s ts'. scan_string [] cs = Some (raw, rest) \<and> unquote raw = Some s \<and>
                      lex rest = Some ts' \<and> ts = TString s # ts'"
      by (simp split: option.splits prod.splits) blast
    then obtain raw rest s ts' where sc: "scan_string [] cs = Some (raw, rest)"
      and lr: "lex rest = Some ts'" and ts: "ts = TString s # ts'" by blast
    from scan_string_chars [OF sc] have cs: "cs = raw @ CHR 0x22 # rest" and b: "string_chars raw"
      by auto
    from b have "token_text (TString s) (CHR 0x22 # raw @ [CHR 0x22])" by (rule token_text.intros)
    with st cs lr ts scan_string_shorter [OF sc] show ?thesis
      by (intro exI [of _ "TString s"] exI [of _ "CHR 0x22 # raw @ [CHR 0x22]"] exI [of _ rest]
                exI [of _ ts']) simp
  next
    case nu
    then have nq: "c \<noteq> CHR ''{''" "c \<noteq> CHR ''}''" "c \<noteq> CHR ''[''" "c \<noteq> CHR '']''" "c \<noteq> CHR '':''"
        "c \<noteq> CHR '',''" "c \<noteq> CHR 0x22"
      by (auto simp add: is_digit_def in_range_def)
    from l ns nq nu have "\<exists>lit rest ts'. scan_number (c # cs) = Some (lit, rest) \<and>
                      lex rest = Some ts' \<and> ts = TNumber lit # ts'"
      by (simp split: option.splits prod.splits) blast
    then obtain lit rest ts' where sc: "scan_number (c # cs) = Some (lit, rest)"
      and lr: "lex rest = Some ts'" and ts: "ts = TNumber lit # ts'" by blast
    from scan_number_text [OF sc] have cs: "c # cs = lit @ rest" and n: "number_text lit"
      by auto
    from n have "token_text (TNumber lit) lit" by (rule token_text.intros)
    with cs lr ts scan_number_shorter [OF sc] show ?thesis
      by (intro exI [of _ "TNumber lit"] exI [of _ lit] exI [of _ rest] exI [of _ ts']) simp
  next
    case other
    show ?thesis
    proof (cases "c = CHR ''t'' \<and> take 3 cs = ''rue''")
      case True
      with l ns other have "\<exists>ts'. lex (drop 3 cs) = Some ts' \<and> ts = TTrue # ts'" by auto
      then obtain ts' where lr: "lex (drop 3 cs) = Some ts'" and ts: "ts = TTrue # ts'" by blast
      from True have "c # cs = ''true'' @ drop 3 cs"
        using append_take_drop_id [of 3 cs] by simp
      with lr ts show ?thesis
        by (intro exI [of _ TTrue] exI [of _ "''true''"] exI [of _ "drop 3 cs"] exI [of _ ts'])
           (simp add: token_text.intros)
    next
      case nt: False
      show ?thesis
      proof (cases "c = CHR ''f'' \<and> take 4 cs = ''alse''")
        case True
        with l ns other nt have "\<exists>ts'. lex (drop 4 cs) = Some ts' \<and> ts = TFalse # ts'" by auto
        then obtain ts' where lr: "lex (drop 4 cs) = Some ts'" and ts: "ts = TFalse # ts'" by blast
        from True have "c # cs = ''false'' @ drop 4 cs"
          using append_take_drop_id [of 4 cs] by simp
        with lr ts show ?thesis
          by (intro exI [of _ TFalse] exI [of _ "''false''"] exI [of _ "drop 4 cs"] exI [of _ ts'])
             (simp add: token_text.intros)
      next
        case nf: False
        with l ns other nt have n: "c = CHR ''n'' \<and> take 3 cs = ''ull''"
          and "\<exists>ts'. lex (drop 3 cs) = Some ts' \<and> ts = TNull # ts'"
          by (auto split: if_splits)
        then obtain ts' where lr: "lex (drop 3 cs) = Some ts'" and ts: "ts = TNull # ts'" by blast
        from n have "c # cs = ''null'' @ drop 3 cs"
          using append_take_drop_id [of 3 cs] by simp
        with lr ts show ?thesis
          by (intro exI [of _ TNull] exI [of _ "''null''"] exI [of _ "drop 3 cs"] exI [of _ ts'])
             (simp add: token_text.intros)
      qed
    qed
  qed
qed

lemma lex_spells: "lex data = Some ts \<Longrightarrow> spells ts data"
proof (induction "length data" arbitrary: data ts rule: less_induct)
  case less
  show ?case
  proof (cases data)
    case Nil
    with less.prems show ?thesis by (auto intro: spells.intros)
  next
    case (Cons c cs)
    show ?thesis
    proof (cases "isSpace c")
      case True
      with less.prems Cons have "lex cs = Some ts" by simp
      from less.hyps [OF _ this] Cons have "spells ts cs" by simp
      with True Cons show ?thesis by (simp add: spells_space)
    next
      case False
      from lex_Cons_token [OF less.prems [unfolded Cons] False] obtain t s rest ts' where
        d: "c # cs = s @ rest" and tt: "token_text t s" and lr: "lex rest = Some ts'"
        and ts: "ts = t # ts'" and sh: "length rest < length (c # cs)" by blast
      from less.hyps [OF _ lr] sh Cons have "spells ts' rest" by simp
      from spells_token [OF tt this] d ts Cons show ?thesis by simp
    qed
  qed
qed

lemma parse_json_JSON_text: "parse_json data = Some j \<Longrightarrow> JSON_text data"
proof -
  assume "parse_json data = Some j"
  then obtain ts st where l: "lex data = Some ts"
    and s: "scan_tokens ts (BeginValue, []) = Some (EndTop j, st)"
    by (auto simp add: parse_json_def split: option.splits prod.splits step.splits)
  from scan_tokens_tokens_of [OF s] value_tokens_tokens_of [of j] have "value_tokens ts" by simp
  with lex_spells [OF l] show "JSON_text data" unfolding JSON_text_def by blast
qed

text \<open>
  The last character of a JSON text, white space apart, ends a token that can end a value:
  it is not a colon, a comma or an opening bracket. So a payload cut off after a colon is
  not a JSON text.
\<close>

lemma digit_closing:
  "is_digit c \<Longrightarrow> \<not> isSpace c \<and> c \<notin> {CHR '':'', CHR '','', CHR ''{'', CHR ''[''}"
  by (auto simp add: is_digit_def in_range_def isSpace_def)

lemma digits_last: "list_all is_digit ds \<Longrightarrow> ds \<noteq> [] \<Longrightarrow> is_digit (last ds)"
  by (simp add: list_all_iff)

lemma number_int_last: "number_int i \<Longrightarrow> i \<noteq> [] \<and> is_digit (last i)"
  by (auto simp add: number_int_def is_digit_def in_range_def list_all_iff)

lemma number_frac_last: "number_frac f \<Longrightarrow> f \<noteq> [] \<and> is_digit (last f)"
  by (auto simp add: number_frac_def list_all_iff)

lemma number_exp_last: "number_exp e \<Longrightarrow> e \<noteq> [] \<and> is_digit (last e)"
  by (auto simp add: number_exp_def list_all_iff)

lemma number_text_last: "number_text l \<Longrightarrow> l \<noteq> [] \<and> is_digit (last l)"
proof -
  assume "number_text l"
  then obtain sign i f e where l: "l = sign @ i @ f @ e" and i: "number_int i"
    and f: "f = [] \<or> number_frac f" and e: "e = [] \<or> number_exp e"
    unfolding number_text_def by blast
  from number_int_last [OF i] f e l show ?thesis
    by (auto dest: number_frac_last number_exp_last)
qed

lemma token_text_last:
  assumes "token_text t s" and "t \<notin> {TColon, TComma, TBeginObject, TBeginArray}"
  shows "s \<noteq> [] \<and> \<not> isSpace (last s) \<and> last s \<notin> {CHR '':'', CHR '','', CHR ''{'', CHR ''[''}"
  using assms
proof (cases rule: token_text.cases)
  case 10
  with number_text_last [of s] digit_closing [of "last s"] show ?thesis by simp
qed (simp_all add: isSpace_def)

lemma spells_no_token: "spells [] w \<Longrightarrow> list_all isSpace w"
  by (erule spells.cases) simp_all

lemma spells_last:
  "spells ts data \<Longrightarrow> ts \<noteq> [] \<Longrightarrow>
   \<exists>pre s w. data = pre @ s @ w \<and> token_text (last ts) s \<and> list_all isSpace w"
proof (induction rule: spells.induct)
  case (1 w)
  then show ?case by simp
next
  case (2 w t s ts rest)
  show ?case
  proof (cases "ts = []")
    case True
    with 2 spells_no_token [of rest] show ?thesis by auto
  next
    case False
    with 2 obtain pre s' w' where "rest = pre @ s' @ w'" "token_text (last ts) s'" "list_all isSpace w'"
      by blast
    with False show ?thesis
      by (intro exI [of _ "w @ s @ pre"] exI [of _ s'] exI [of _ w']) simp
  qed
qed

lemma value_tokens_last:
  "value_tokens ts \<Longrightarrow> ts \<noteq> [] \<and> last ts \<notin> {TColon, TComma, TBeginObject, TBeginArray}"
  "element_tokens es \<Longrightarrow> es \<noteq> [] \<and> last es \<notin> {TColon, TComma, TBeginObject, TBeginArray}"
  "member_tokens ms \<Longrightarrow> ms \<noteq> [] \<and> last ms \<notin> {TColon, TComma, TBeginObject, TBeginArray}"
  by (induction rule: value_tokens_element_tokens_member_tokens.inducts) simp_all

lemma JSON_text_last:
  assumes "JSON_text data"
  shows "hd (dropWhile isSpace (rev data)) \<notin> {CHR '':'', CHR '','', CHR ''{'', CHR ''[''}"
proof -
  from assms obtain ts where s: "spells ts data" and v: "value_tokens ts"
    unfolding JSON_text_def by blast
  from value_tokens_last(1) [OF v] have ne: "ts \<noteq> []"
    and c: "last ts \<notin> {TColon, TComma, TBeginObject, TBeginArray}" by simp_all
  from spells_last [OF s ne] obtain pre x w where d: "data = pre @ x @ w"
    and t: "token_text (last ts) x" and w: "list_all isSpace w" by blast
  from token_text_last [OF t c] have x: "x \<noteq> []" and sp: "\<not> isSpace (last x)"
    and l: "last x \<notin> {CHR '':'', CHR '','', CHR ''{'', CHR ''[''}" by simp_all
  from w have "dropWhile isSpace (rev w @ rev x @ rev pre) = dropWhile isSpace (rev x @ rev pre)"
    by (simp add: dropWhile_append list_all_iff)
  also from x sp have "\<dots> = rev x @ rev pre"
    by (cases x rule: rev_cases) simp_all
  finally have "hd (dropWhile isSpace (rev data)) = last x"
    using x d by (simp add: hd_rev hd_append)
  with l show ?thesis by simp
qed

lemma not_JSON_text_truncated: \<open>\<not> JSON_text ''{"latitude": 37.8, "longitude": ''\<close>
proof
  assume \<open>JSON_text ''{"latitude": 37.8, "longitude": ''\<close>
  from JSON_text_last [OF this] show False
    by (simp add: isSpace_def)
qed


section \<open>Decoding: errors and the empty object\<close>

lemma FromJSON_SyntaxError:
  "parse_json data = None \<Longrightarrow> FromJSON ParseFloat data = (None, Some SyntaxError)"
  by (simp add: FromJSON_def Unmarshal_def)

lemma not_JSON_text_parse_json: "\<not> JSON_text data \<Longrightarrow> parse_json data = None"
  using parse_json_JSON_text [of data] by (cases "parse_json data") auto

lemma not_JSON_text_SyntaxError:
  "\<not> JSON_text data \<Longrightarrow> FromJSON ParseFloat data = (None, Some SyntaxError)"
  using parse_json_JSON_text [of data] by (cases "parse_json data") (auto simp add: FromJSON_SyntaxError)




lemma parse_json_empty_object: "parse_json ''{}'' = Some (JObject [])"
  by code_simp






text \<open>
  C3: decoding the two bytes \<open>{}\<close> succeeds, and the record returned has every field at
  the zero value of its type: \<open>0\<close> for the numbers, the empty string, nil slices, and
  zero-valued nested \<open>DataPoint\<close>, \<open>DataBlock\<close> and \<open>Flags\<close> records.
\<close>

theorem FromJSON_empty_object:
  "length ''{}'' = 2 \<and> FromJSON ParseFloat ''{}'' = (Some zero_Forecast, None)"
  by (simp add: FromJSON_def Unmarshal_def value_struct_def parse_json_empty_object)

text \<open>
  C4: for every input that is not syntactically valid JSON (not a \<open>JSON_text\<close>),
  \<open>FromJSON\<close> returns a DecodeError, the \<open>SyntaxError\<close>, and the nil pointer; and
  whatever the input, it never returns a record together with an error.
\<close>

theorem FromJSON_malformed:
  "(\<not> JSON_text data \<longrightarrow>
      fst (FromJSON ParseFloat data) = None \<and>
      snd (FromJSON ParseFloat data) = Some SyntaxError \<and>
      (\<exists>e. snd (FromJSON ParseFloat data) = Some e \<and> is_DecodeError e)) \<and>
   (snd (FromJSON ParseFloat blob) \<noteq> None \<longrightarrow> fst (FromJSON ParseFloat blob) = None)"
  by (auto simp add: not_JSON_text_SyntaxError) (simp add: FromJSON_def split: sum.splits)

theorem FromJSON_malformed_witness:
  \<open>fst (FromJSON ParseFloat_integral []) = None \<and>
   snd (FromJSON ParseFloat_integral []) = Some SyntaxError \<and>
   fst (FromJSON ParseFloat_integral ''{"latitude": 37.8, "longitude": '') = None \<and>
   snd (FromJSON ParseFloat_integral ''{"latitude": 37.8, "longitude": '') = Some SyntaxError\<close>
proof -
  let ?t = \<open>''{"latitude": 37.8, "longitude": ''\<close>
  note a = FromJSON_malformed [where data = "[]" and blob = "[]" and ParseFloat = ParseFloat_integral]
  note b = FromJSON_malformed [where data = ?t and blob = ?t and ParseFloat = ParseFloat_integral]
  from a [THEN conjunct1, THEN mp, OF not_JSON_text_empty]
  have 1: "fst (FromJSON ParseFloat_integral []) = None \<and>
           snd (FromJSON ParseFloat_integral []) = Some SyntaxError" by simp
  from b [THEN conjunct1, THEN mp, OF not_JSON_text_truncated]
  have 2: "snd (FromJSON ParseFloat_integral ?t) = Some SyntaxError" by simp
  then have "snd (FromJSON ParseFloat_integral ?t) \<noteq> None" by simp
  from b [THEN conjunct2, THEN mp, OF this] 1 2 show ?thesis by simp
qed

text \<open>
  Validity does not ask for well-formed UTF-8: a string holding the byte \<open>0xFF\<close> is a
  JSON text, and it decodes, the byte replaced by the encoding of \<open>U+FFFD\<close>.
\<close>

lemma FromJSON_ill_formed_utf8:
  \<open>JSON_text (''{"timezone": "'' @ [CHR 0xFF] @ ''"}'') \<and>
   FromJSON ParseFloat_integral (''{"timezone": "'' @ [CHR 0xFF] @ ''"}'')
     = (Some (zero_Forecast\<lparr>Timezone := [CHR 0xEF, CHR 0xBF, CHR 0xBD]\<rparr>), None)\<close>
proof -
  have \<open>parse_json (''{"timezone": "'' @ [CHR 0xFF] @ ''"}'')
          = Some (JObject [(''timezone'', JString [CHR 0xEF, CHR 0xBF, CHR 0xBD])])\<close>
    by code_simp
  from parse_json_JSON_text [OF this]
  have \<open>JSON_text (''{"timezone": "'' @ [CHR 0xFF] @ ''"}'')\<close> .
  moreover have \<open>FromJSON ParseFloat_integral (''{"timezone": "'' @ [CHR 0xFF] @ ''"}'')
     = (Some (zero_Forecast\<lparr>Timezone := [CHR 0xEF, CHR 0xBF, CHR 0xBD]\<rparr>), None)\<close>
    by code_simp
  ultimately show ?thesis by simp
qed


section \<open>Integers read by Atoi\<close>

lemma digit_nonneg: "is_digit c \<Longrightarrow> 0 \<le> (of_char c :: int) - 0x30"
  by (simp add: is_digit_def in_range_def)

lemma digits_mono:
  "list_all is_digit ds \<Longrightarrow> 0 \<le> n \<Longrightarrow>
   (n :: int) \<le> foldl (\<lambda>n c. n * 10 + (of_char c - 0x30)) n ds"
proof (induction ds arbitrary: n)
  case Nil
  then show ?case by simp
next
  case (Cons c cs)
  from Cons.prems have c: "is_digit c" and cs: "list_all is_digit cs"
    by simp_all
  have d: "0 \<le> (of_char c :: int) - 0x30" by (rule digit_nonneg [OF c])
  from d Cons.prems(2) have "n \<le> n * 10 + (of_char c - 0x30)" and "0 \<le> n * 10 + (of_char c - 0x30)"
    by linarith+
  with Cons.IH [OF cs, of "n * 10 + (of_char c - 0x30)"] show ?case
    by simp
qed

lemma ParseUint_digits_value:
  "list_all is_digit ds \<Longrightarrow> 0 \<le> n \<Longrightarrow> n \<le> maxUint64 \<Longrightarrow>
   ParseUint_digits n ds =
     (if foldl (\<lambda>n c. n * 10 + (of_char c - 0x30)) n ds \<le> maxUint64
      then (foldl (\<lambda>n c. n * 10 + (of_char c - 0x30)) n ds, None)
      else (maxUint64, Some ErrRange))"
proof (induction ds arbitrary: n)
  case Nil
  then show ?case by simp
next
  case (Cons c cs)
  let ?step = "\<lambda>n c. n * 10 + ((of_char c :: int) - 0x30)"
  from Cons.prems have c: "is_digit c" and cs: "list_all is_digit cs"
    by simp_all
  have d: "0 \<le> (of_char c :: int) - 0x30" by (rule digit_nonneg [OF c])
  from d Cons.prems(2) have n1: "0 \<le> ?step n c" by linarith
  have mono: "?step n c \<le> foldl ?step (?step n c) cs"
    by (rule digits_mono [OF cs n1])
  show ?case
  proof (cases "n \<ge> maxUint64 div 10 + 1")
    case True
    then have "?step n c > maxUint64" using d by (simp add: maxUint64_def)
    with mono have "\<not> foldl ?step (?step n c) cs \<le> maxUint64" by linarith
    with True c show ?thesis by simp
  next
    case False
    show ?thesis
    proof (cases "?step n c > maxUint64")
      case True
      with mono have "\<not> foldl ?step (?step n c) cs \<le> maxUint64" by linarith
      with True False c show ?thesis by simp
    next
      case over: False
      then have "?step n c \<le> maxUint64" by simp
      from Cons.IH [OF cs n1 this] False over c show ?thesis by simp
    qed
  qed
qed

lemma ParseUint_decimal:
  "ds \<noteq> [] \<Longrightarrow> list_all is_digit ds \<Longrightarrow>
   ParseUint ds =
     (if decimal_value ds \<le> maxUint64 then (decimal_value ds, None) else (maxUint64, Some ErrRange))"
  by (simp add: ParseUint_def decimal_value_def ParseUint_digits_value maxUint64_def)

lemma decimal_value_nonneg: "list_all is_digit ds \<Longrightarrow> 0 \<le> decimal_value ds"
  using digits_mono [of ds "0::int"] by (simp add: decimal_value_def)

lemma Atoi_decimal_integer:
  assumes "is_decimal_integer s"
  shows "Atoi s =
           (if integer_value s > 2 ^ 63 - 1 then (2 ^ 63 - 1, Some ErrRange)
            else if integer_value s < - (2 ^ 63) then (- (2 ^ 63), Some ErrRange)
            else (integer_value s, None))"
proof (cases s)
  case Nil
  with assms show ?thesis by (simp add: is_decimal_integer_def)
next
  case (Cons c cs)
  show ?thesis
  proof (cases "c = CHR ''+'' \<or> c = CHR ''-''")
    case True
    with assms Cons have ds: "cs \<noteq> []" "list_all is_digit cs"
      by (simp_all add: is_decimal_integer_def)
    from decimal_value_nonneg [OF ds(2)] have nn: "0 \<le> decimal_value cs" .
    from True show ?thesis
    proof
      assume "c = CHR ''+''"
      with Cons nn show ?thesis
        by (simp add: Atoi_def ParseInt_def ParseUint_decimal [OF ds] integer_value_def maxUint64_def)
    next
      assume "c = CHR ''-''"
      with Cons nn show ?thesis
        by (simp add: Atoi_def ParseInt_def ParseUint_decimal [OF ds] integer_value_def maxUint64_def)
    qed
  next
    case False
    with assms Cons have ds: "s \<noteq> []" "list_all is_digit s"
      by (simp_all add: is_decimal_integer_def)
    from decimal_value_nonneg [OF ds(2)] have nn: "0 \<le> decimal_value s" .
    from False Cons nn show ?thesis
      by (simp add: Atoi_def ParseInt_def ParseUint_decimal [OF ds, unfolded Cons]
                    integer_value_def maxUint64_def)
  qed
qed

lemma Atoi_error_value:
  "(snd (Atoi s) = Some ErrSyntax \<longrightarrow> fst (Atoi s) = 0) \<and>
   (snd (Atoi s) = Some ErrRange \<longrightarrow> fst (Atoi s) = 2 ^ 63 - 1 \<or> fst (Atoi s) = - (2 ^ 63))"
  by (auto simp add: Atoi_def ParseInt_def Let_def split: prod.splits option.splits num_error.splits if_splits)

lemma Atoi_empty: "Atoi [] = (0, Some ErrSyntax)"
  by (simp add: Atoi_def ParseInt_def)

section \<open>Decoding an object into a struct\<close>

lemma find_Some_D: "find P xs = Some x \<Longrightarrow> x \<in> set xs \<and> P x"
  by (induction xs) (auto split: if_splits)

lemma find_None_D: "find P xs = None \<Longrightarrow> x \<in> set xs \<Longrightarrow> \<not> P x"
  by (induction xs) (auto split: if_splits)

lemma lookup_field_Some:
  assumes "lookup_field flds key = Some (tag, st)"
  shows "(tag, st) \<in> set flds \<and> foldName tag = foldName key"
proof (cases "find (\<lambda>f. fst f = key) flds")
  case None
  with assms have "find (\<lambda>f. foldName (fst f) = foldName key) flds = Some (tag, st)"
    by (simp add: lookup_field_def)
  from find_Some_D [OF this] show ?thesis by simp
next
  case (Some f)
  with assms have "find (\<lambda>f. fst f = key) flds = Some (tag, st)"
    by (simp add: lookup_field_def)
  from find_Some_D [OF this] show ?thesis by auto
qed

lemma lookup_field_None:
  assumes "lookup_field flds key = None" and "(tag, st) \<in> set flds"
  shows "foldName tag \<noteq> foldName key"
proof -
  from assms(1) have "find (\<lambda>f. foldName (fst f) = foldName key) flds = None"
    by (simp add: lookup_field_def split: option.splits)
  from find_None_D [OF this assms(2)] show ?thesis by simp
qed

lemma lookup_field_unique:
  assumes "distinct (map (foldName \<circ> fst) flds)" and "(tag, st) \<in> set flds"
    and "foldName key = foldName tag"
  shows "lookup_field flds key = Some (tag, st)"
proof (cases "lookup_field flds key")
  case None
  from lookup_field_None [OF None assms(2)] assms(3) show ?thesis by simp
next
  case (Some f)
  obtain tag' st' where f: "f = (tag', st')" by (cases f)
  from lookup_field_Some [OF Some [unfolded f]]
  have m: "(tag', st') \<in> set flds" and e: "foldName tag' = foldName key" by simp_all
  from assms(1) have "inj_on (foldName \<circ> fst) (set flds)" by (simp add: distinct_map)
  from inj_onD [OF this _ m assms(2)] e assms(3) have "(tag', st') = (tag, st)" by simp
  with Some f show ?thesis by simp
qed

lemma object_append:
  "object flds (ms1 @ ms2) s =
     (case object flds ms1 s of Inl e \<Rightarrow> Inl e | Inr s1 \<Rightarrow> object flds ms2 s1)"
  by (induction ms1 arbitrary: s) (auto split: option.splits sum.splits)

lemma object_frame:
  assumes frame: "\<And>tag' st v s s'. (tag', st) \<in> set flds \<Longrightarrow> tag' \<noteq> tag \<Longrightarrow> st v s = Inr s'
                    \<Longrightarrow> get s' = get s"
    and "members tag ms = []"
    and "object flds ms s = Inr s'"
  shows "get s' = get s"
  using assms(2,3)
proof (induction ms arbitrary: s)
  case Nil
  then show ?case by simp
next
  case (Cons m ms)
  obtain key v where m: "m = (key, v)" by (cases m)
  from Cons.prems(1) m have k: "foldName key \<noteq> foldName tag" and rest: "members tag ms = []"
    by (auto simp add: members_def split: if_splits)
  show ?case
  proof (cases "lookup_field flds key")
    case None
    with Cons.prems(2) m have "object flds ms s = Inr s'" by simp
    from Cons.IH [OF rest this] show ?thesis .
  next
    case (Some f)
    obtain tag' st where f: "f = (tag', st)" by (cases f)
    from lookup_field_Some [OF Some [unfolded f]] k
    have mem: "(tag', st) \<in> set flds" and ne: "tag' \<noteq> tag" by auto
    from Cons.prems(2) m Some f obtain s1 where
      1: "st v s = Inr s1" and 2: "object flds ms s1 = Inr s'"
      by (auto split: sum.splits)
    from Cons.IH [OF rest 2] frame [OF mem ne 1] show ?thesis by simp
  qed
qed

lemma object_unique_member:
  assumes dist: "distinct (map (foldName \<circ> fst) flds)"
    and fld: "(tag, field val get upd) \<in> set flds"
    and frame: "\<And>tag' st v s s'. (tag', st) \<in> set flds \<Longrightarrow> tag' \<noteq> tag \<Longrightarrow> st v s = Inr s'
                    \<Longrightarrow> get s' = get s"
    and getupd: "\<And>x s. get (upd (\<lambda>_. x) s) = x"
    and uniq: "members tag ms = [(key, v)]"
    and ok: "object flds ms s = Inr s'"
  shows "val v (get s) = Inr (get s')"
proof -
  let ?P = "\<lambda>(key, v). foldName key = foldName tag"
  from uniq have "filter ?P ms = [(key, v)]" by (simp add: members_def)
  then obtain ms1 ms2 where ms: "ms = ms1 @ (key, v) # ms2" and u: "\<forall>u\<in>set ms1. \<not> ?P u"
    and p: "?P (key, v)" and e: "[] = filter ?P ms2"
    unfolding filter_eq_Cons_iff by blast
  from u have 1: "members tag ms1 = []" by (simp add: members_def filter_empty_conv)
  from e [symmetric] have 2: "members tag ms2 = []" by (simp add: members_def)
  from p have k: "foldName key = foldName tag" by simp
  from ok ms obtain s1 where s1: "object flds ms1 s = Inr s1"
    and r: "object flds ((key, v) # ms2) s1 = Inr s'"
    by (auto simp add: object_append split: sum.splits)
  from lookup_field_unique [OF dist fld k] r obtain s2 where
    s2: "field val get upd v s1 = Inr s2" and s3: "object flds ms2 s2 = Inr s'"
    by (auto split: sum.splits)
  from object_frame [of flds tag get, OF frame 1 s1] have g1: "get s1 = get s" by simp
  from object_frame [of flds tag get, OF frame 2 s3] have g3: "get s' = get s2" by simp
  from s2 obtain x where x: "val v (get s1) = Inr x" and "s2 = upd (\<lambda>_. x) s1"
    by (auto simp add: field_def split: sum.splits)
  with getupd have "get s2 = x" by simp
  with x g1 g3 show ?thesis by simp
qed

lemma array_elems_map:
  "array_elems val z js [] = Inr xs \<Longrightarrow> map (\<lambda>j. val j z) js = map Inr xs"
  by (induction js arbitrary: xs) (auto split: sum.splits)

lemma value_slice_nil:
  assumes "value_slice val z (JArray js) NilSlice = Inr s"
  shows "map (\<lambda>j. val j z) js = map Inr (elems s)"
proof -
  from assms obtain xs where xs: "array_elems val z js [] = Inr xs"
    and s: "s = (if js = [] then Slice [] [] else Slice xs [])"
    by (auto simp add: value_slice_def split: sum.splits)
  from array_elems_map [OF xs] s show ?thesis by (auto split: if_splits)
qed


lemma fold_Forecast_tags:
  "map (foldName \<circ> fst) (Forecast_fields ParseFloat) =
     [''LATITUDE'', ''LONGITUDE'', ''TIMEZONE'', ''OFFSET'', ''CURRENTLY'', ''MINUTELY'', ''HOURLY'',
      ''DAILY'', ''ALERTS'', ''FLAGS'', ''APICALLS'', ''CODE'']"
  by code_simp

lemma fold_DataBlock_tags:
  "map (foldName \<circ> fst) (DataBlock_fields ParseFloat) = [''SUMMARY'', ''ICON'', ''DATA'']"
  by code_simp

lemma distinct_Forecast_fields: "distinct (map (foldName \<circ> fst) (Forecast_fields ParseFloat))"
  unfolding fold_Forecast_tags by simp

lemma distinct_DataBlock_fields: "distinct (map (foldName \<circ> fst) (DataBlock_fields ParseFloat))"
  unfolding fold_DataBlock_tags by simp

lemma FromJSON_object:
  assumes "parse_json data = Some (JObject ms)" and "FromJSON ParseFloat data = (Some f, None)"
  shows "object (Forecast_fields ParseFloat) ms zero_Forecast = Inr f"
  using assms by (simp add: FromJSON_def Unmarshal_def value_struct_def split: sum.splits)

lemma DataBlock_frame_Data:
  assumes "(tag', st) \<in> set (DataBlock_fields ParseFloat)" and "tag' \<noteq> ''data''"
    and "st v s = Inr s'"
  shows "Data s' = Data s"
  using assms by (auto simp add: DataBlock_fields_def field_def split: sum.splits)

lemma Forecast_frame_Minutely:
  assumes "(tag', st) \<in> set (Forecast_fields ParseFloat)" and "tag' \<noteq> ''minutely''"
    and "st v s = Inr s'"
  shows "Minutely s' = Minutely s"
  using assms by (auto simp add: Forecast_fields_def field_def split: sum.splits)

lemma Forecast_frame_Hourly:
  assumes "(tag', st) \<in> set (Forecast_fields ParseFloat)" and "tag' \<noteq> ''hourly''"
    and "st v s = Inr s'"
  shows "Hourly s' = Hourly s"
  using assms by (auto simp add: Forecast_fields_def field_def split: sum.splits)

lemma Forecast_frame_Daily:
  assumes "(tag', st) \<in> set (Forecast_fields ParseFloat)" and "tag' \<noteq> ''daily''"
    and "st v s = Inr s'"
  shows "Daily s' = Daily s"
  using assms by (auto simp add: Forecast_fields_def field_def split: sum.splits)

lemma Forecast_frame_Alerts:
  assumes "(tag', st) \<in> set (Forecast_fields ParseFloat)" and "tag' \<noteq> ''alerts''"
    and "st v s = Inr s'"
  shows "Alerts s' = Alerts s"
  using assms by (auto simp add: Forecast_fields_def field_def split: sum.splits)

lemma Forecast_frame_APICalls:
  assumes "(tag', st) \<in> set (Forecast_fields ParseFloat)" and "tag' \<noteq> ''apicalls''"
    and "st v s = Inr s'"
  shows "APICalls s' = APICalls s"
  using assms by (auto simp add: Forecast_fields_def field_def split: sum.splits)

lemma DataBlock_data:
  assumes d: "members ''data'' bs = [(key, JArray ps)]"
    and ok: "value_struct (DataBlock_fields ParseFloat) (JObject bs) zero_DataBlock = Inr b"
  shows "map (\<lambda>p. value_struct (DataPoint_fields ParseFloat) p zero_DataPoint) ps
           = map Inr (elems (Data b))"
proof -
  from ok have o: "object (DataBlock_fields ParseFloat) bs zero_DataBlock = Inr b"
    by (simp add: value_struct_def)
  have fld: "(''data'',
              field (value_slice (value_struct (DataPoint_fields ParseFloat)) zero_DataPoint)
                Data Data_update) \<in> set (DataBlock_fields ParseFloat)"
    by (simp add: DataBlock_fields_def)
  have "value_slice (value_struct (DataPoint_fields ParseFloat)) zero_DataPoint (JArray ps)
          (Data zero_DataBlock) = Inr (Data b)"
  proof (rule object_unique_member [OF distinct_DataBlock_fields fld _ _ d o])
    fix tag' st v s s'
    assume "(tag', st) \<in> set (DataBlock_fields ParseFloat)" "tag' \<noteq> ''data''" "st v s = Inr s'"
    then show "Data s' = Data s" by (rule DataBlock_frame_Data)
  qed simp
  then show ?thesis
    by (simp add: zero_DataBlock_def value_slice_nil)
qed

lemma Minutely_data:
  assumes p: "parse_json data = Some (JObject ms)"
    and ok: "FromJSON ParseFloat data = (Some f, None)"
    and b: "members ''minutely'' ms = [(key, JObject bs)]"
    and d: "members ''data'' bs = [(key', JArray ps)]"
  shows "map (\<lambda>p. value_struct (DataPoint_fields ParseFloat) p zero_DataPoint) ps
           = map Inr (elems (Data (Minutely f)))"
proof -
  have fld: "(''minutely'', field (value_struct (DataBlock_fields ParseFloat)) Minutely Minutely_update)
               \<in> set (Forecast_fields ParseFloat)"
    by (simp add: Forecast_fields_def)
  have "value_struct (DataBlock_fields ParseFloat) (JObject bs) (Minutely zero_Forecast)
          = Inr (Minutely f)"
  proof (rule object_unique_member [OF distinct_Forecast_fields fld _ _ b FromJSON_object [OF p ok]])
    fix tag' st v s s'
    assume "(tag', st) \<in> set (Forecast_fields ParseFloat)" "tag' \<noteq> ''minutely''" "st v s = Inr s'"
    then show "Minutely s' = Minutely s" by (rule Forecast_frame_Minutely)
  qed simp
  then show ?thesis
    by (simp add: zero_Forecast_def DataBlock_data [OF d])
qed

lemma Hourly_data:
  assumes p: "parse_json data = Some (JObject ms)"
    and ok: "FromJSON ParseFloat data = (Some f, None)"
    and b: "members ''hourly'' ms = [(key, JObject bs)]"
    and d: "members ''data'' bs = [(key', JArray ps)]"
  shows "map (\<lambda>p. value_struct (DataPoint_fields ParseFloat) p zero_DataPoint) ps
           = map Inr (elems (Data (Hourly f)))"
proof -
  have fld: "(''hourly'', field (value_struct (DataBlock_fields ParseFloat)) Hourly Hourly_update)
               \<in> set (Forecast_fields ParseFloat)"
    by (simp add: Forecast_fields_def)
  have "value_struct (DataBlock_fields ParseFloat) (JObject bs) (Hourly zero_Forecast)
          = Inr (Hourly f)"
  proof (rule object_unique_member [OF distinct_Forecast_fields fld _ _ b FromJSON_object [OF p ok]])
    fix tag' st v s s'
    assume "(tag', st) \<in> set (Forecast_fields ParseFloat)" "tag' \<noteq> ''hourly''" "st v s = Inr s'"
    then show "Hourly s' = Hourly s" by (rule Forecast_frame_Hourly)
  qed simp
  then show ?thesis
    by (simp add: zero_Forecast_def DataBlock_data [OF d])
qed

lemma Daily_data:
  assumes p: "parse_json data = Some (JObject ms)"
    and ok: "FromJSON ParseFloat data = (Some f, None)"
    and b: "members ''daily'' ms = [(key, JObject bs)]"
    and d: "members ''data'' bs = [(key', JArray ps)]"
  shows "map (\<lambda>p. value_struct (DataPoint_fields ParseFloat) p zero_DataPoint) ps
           = map Inr (elems (Data (Daily f)))"
proof -
  have fld: "(''daily'', field (value_struct (DataBlock_fields ParseFloat)) Daily Daily_update)
               \<in> set (Forecast_fields ParseFloat)"
    by (simp add: Forecast_fields_def)
  have "value_struct (DataBlock_fields ParseFloat) (JObject bs) (Daily zero_Forecast)
          = Inr (Daily f)"
  proof (rule object_unique_member [OF distinct_Forecast_fields fld _ _ b FromJSON_object [OF p ok]])
    fix tag' st v s s'
    assume "(tag', st) \<in> set (Forecast_fields ParseFloat)" "tag' \<noteq> ''daily''" "st v s = Inr s'"
    then show "Daily s' = Daily s" by (rule Forecast_frame_Daily)
  qed simp
  then show ?thesis
    by (simp add: zero_Forecast_def DataBlock_data [OF d])
qed

lemma Alerts_data:
  assumes p: "parse_json data = Some (JObject ms)"
    and ok: "FromJSON ParseFloat data = (Some f, None)"
    and a: "members ''alerts'' ms = [(key, JArray as)]"
  shows "map (\<lambda>a. value_struct (alert_fields ParseFloat) a zero_alert) as
           = map Inr (elems (Alerts f))"
proof -
  have fld: "(''alerts'',
              field (value_slice (value_struct (alert_fields ParseFloat)) zero_alert)
                Alerts Alerts_update) \<in> set (Forecast_fields ParseFloat)"
    by (simp add: Forecast_fields_def)
  have "value_slice (value_struct (alert_fields ParseFloat)) zero_alert (JArray as)
          (Alerts zero_Forecast) = Inr (Alerts f)"
  proof (rule object_unique_member [OF distinct_Forecast_fields fld _ _ a FromJSON_object [OF p ok]])
    fix tag' st v s s'
    assume "(tag', st) \<in> set (Forecast_fields ParseFloat)" "tag' \<noteq> ''alerts''" "st v s = Inr s'"
    then show "Alerts s' = Alerts s" by (rule Forecast_frame_Alerts)
  qed simp
  then show ?thesis
    by (simp add: zero_Forecast_def value_slice_nil)
qed

text \<open>
  When several members select one field, each is decoded into it in turn, and the field
  ends with what the last of them gave.
\<close>

lemma filter_eq_snoc:
  "filter P xs = pre @ [x] \<Longrightarrow> \<exists>xs1 xs2. xs = xs1 @ x # xs2 \<and> filter P xs2 = [] \<and> P x"
proof (induction xs rule: rev_induct)
  case Nil
  then show ?case by simp
next
  case (snoc y ys)
  show ?case
  proof (cases "P y")
    case True
    with snoc.prems have "y = x" by simp
    with True show ?thesis by (intro exI [of _ ys] exI [of _ "[]"]) simp
  next
    case False
    with snoc.prems have "filter P ys = pre @ [x]" by simp
    from snoc.IH [OF this] obtain xs1 xs2 where
      "ys = xs1 @ x # xs2" "filter P xs2 = []" "P x" by blast
    with False show ?thesis
      by (intro exI [of _ xs1] exI [of _ "xs2 @ [y]"]) simp
  qed
qed

lemma object_last_member:
  assumes dist: "distinct (map (foldName \<circ> fst) flds)"
    and fld: "(tag, field val get upd) \<in> set flds"
    and frame: "\<And>tag' st v s s'. (tag', st) \<in> set flds \<Longrightarrow> tag' \<noteq> tag \<Longrightarrow> st v s = Inr s'
                    \<Longrightarrow> get s' = get s"
    and getupd: "\<And>x s. get (upd (\<lambda>_. x) s) = x"
    and last: "members tag ms = pre @ [(key, v)]"
    and ok: "object flds ms s = Inr s'"
  shows "\<exists>old. val v old = Inr (get s')"
proof -
  let ?P = "\<lambda>(key, v). foldName key = foldName tag"
  from last have "filter ?P ms = pre @ [(key, v)]" by (simp add: members_def)
  from filter_eq_snoc [OF this] obtain ms1 ms2 where ms: "ms = ms1 @ (key, v) # ms2"
    and e: "filter ?P ms2 = []" and p: "?P (key, v)" by blast
  from e have 2: "members tag ms2 = []" by (simp add: members_def)
  from p have k: "foldName key = foldName tag" by simp
  from ok ms obtain s1 where s1: "object flds ms1 s = Inr s1"
    and r: "object flds ((key, v) # ms2) s1 = Inr s'"
    by (auto simp add: object_append split: sum.splits)
  from lookup_field_unique [OF dist fld k] r obtain s2 where
    s2: "field val get upd v s1 = Inr s2" and s3: "object flds ms2 s2 = Inr s'"
    by (auto split: sum.splits)
  from object_frame [of flds tag get, OF frame 2 s3] have g3: "get s' = get s2" by simp
  from s2 obtain x where x: "val v (get s1) = Inr x" and "s2 = upd (\<lambda>_. x) s1"
    by (auto simp add: field_def split: sum.splits)
  with getupd have "get s2 = x" by simp
  with x g3 show ?thesis by auto
qed

lemma APICalls_body_last:
  assumes p: "parse_json data = Some (JObject ms)"
    and ok: "FromJSON ParseFloat data = (Some f, None)"
    and a: "members ''apicalls'' ms = pre @ [(key, JNumber l)]"
  shows "ParseInt l = (APICalls f, None)"
proof -
  have fld: "(''apicalls'', field value_int APICalls APICalls_update) \<in> set (Forecast_fields ParseFloat)"
    by (simp add: Forecast_fields_def)
  have "\<exists>old. value_int (JNumber l) old = Inr (APICalls f)"
  proof (rule object_last_member [OF distinct_Forecast_fields fld _ _ a FromJSON_object [OF p ok]])
    fix tag' st v and s s' :: "'a Forecast"
    assume "(tag', st) \<in> set (Forecast_fields ParseFloat)" "tag' \<noteq> ''apicalls''" "st v s = Inr s'"
    then show "APICalls s' = APICalls s" by (rule Forecast_frame_APICalls)
  qed simp
  then show ?thesis
    by (auto simp add: value_int_def split: prod.splits option.splits)
qed

lemma blocks_payload_parse:
  "parse_json blocks_payload = Some (JObject
     [(''minutely'', JObject [(''data'', JArray [JObject [(''time'', JNumber ''1'')],
                                                  JObject [(''time'', JNumber ''2'')]])]),
      (''hourly'', JObject [(''data'', JArray [JObject [(''time'', JNumber ''3'')],
                                                JObject [(''time'', JNumber ''4'')],
                                                JObject [(''time'', JNumber ''5'')]])]),
      (''daily'', JObject [(''data'', JArray [JObject [(''time'', JNumber ''6'')]])]),
      (''alerts'', JArray [JObject [(''title'', JString ''wind'')],
                           JObject [(''title'', JString ''flood'')]])])"
  by code_simp

lemma blocks_payload_decode:
  "FromJSON ParseFloat_integral blocks_payload = (Some blocks_record, None)"
  by code_simp

text \<open>
  C7 (as amended): decoding preserves the order of elements, provided that no two members
  select the same field. For a payload that decodes, whose \<open>minutely\<close>, \<open>hourly\<close> or
  \<open>daily\<close> member is an object with a \<open>data\<close> array of \<open>n\<close> elements, each the only
  member of its object whose name matches up to case (\<open>members tag ms\<close> has one element),
  the decoded \<open>Data\<close> has \<open>n\<close> elements and its \<open>i\<close>-th element is the \<open>i\<close>-th element
  of the array, decoded; likewise for \<open>Alerts\<close> and the only member matching \<open>alerts\<close>.
\<close>

theorem FromJSON_order:
  assumes "parse_json data = Some (JObject ms)" and "FromJSON ParseFloat data = (Some f, None)"
  shows "(members ''minutely'' ms = [(k1, JObject bs1)] \<and> members ''data'' bs1 = [(k1', JArray ps1)] \<longrightarrow>
            length (elems (Data (Minutely f))) = length ps1 \<and>
            map (\<lambda>p. value_struct (DataPoint_fields ParseFloat) p zero_DataPoint) ps1
              = map Inr (elems (Data (Minutely f)))) \<and>
         (members ''hourly'' ms = [(k2, JObject bs2)] \<and> members ''data'' bs2 = [(k2', JArray ps2)] \<longrightarrow>
            length (elems (Data (Hourly f))) = length ps2 \<and>
            map (\<lambda>p. value_struct (DataPoint_fields ParseFloat) p zero_DataPoint) ps2
              = map Inr (elems (Data (Hourly f)))) \<and>
         (members ''daily'' ms = [(k3, JObject bs3)] \<and> members ''data'' bs3 = [(k3', JArray ps3)] \<longrightarrow>
            length (elems (Data (Daily f))) = length ps3 \<and>
            map (\<lambda>p. value_struct (DataPoint_fields ParseFloat) p zero_DataPoint) ps3
              = map Inr (elems (Data (Daily f)))) \<and>
         (members ''alerts'' ms = [(k4, JArray as)] \<longrightarrow>
            length (elems (Alerts f)) = length as \<and>
            map (\<lambda>a. value_struct (alert_fields ParseFloat) a zero_alert) as
              = map Inr (elems (Alerts f)))"
proof (intro conjI impI; (elim conjE)?)
  assume "members ''minutely'' ms = [(k1, JObject bs1)]" "members ''data'' bs1 = [(k1', JArray ps1)]"
  from Minutely_data [OF assms this]
  show m: "map (\<lambda>p. value_struct (DataPoint_fields ParseFloat) p zero_DataPoint) ps1
              = map Inr (elems (Data (Minutely f)))" .
  from arg_cong [OF m, of length] show "length (elems (Data (Minutely f))) = length ps1" by simp
next
  assume "members ''hourly'' ms = [(k2, JObject bs2)]" "members ''data'' bs2 = [(k2', JArray ps2)]"
  from Hourly_data [OF assms this]
  show m: "map (\<lambda>p. value_struct (DataPoint_fields ParseFloat) p zero_DataPoint) ps2
              = map Inr (elems (Data (Hourly f)))" .
  from arg_cong [OF m, of length] show "length (elems (Data (Hourly f))) = length ps2" by simp
next
  assume "members ''daily'' ms = [(k3, JObject bs3)]" "members ''data'' bs3 = [(k3', JArray ps3)]"
  from Daily_data [OF assms this]
  show m: "map (\<lambda>p. value_struct (DataPoint_fields ParseFloat) p zero_DataPoint) ps3
              = map Inr (elems (Data (Daily f)))" .
  from arg_cong [OF m, of length] show "length (elems (Data (Daily f))) = length ps3" by simp
next
  assume "members ''alerts'' ms = [(k4, JArray as)]"
  from Alerts_data [OF assms this]
  show m: "map (\<lambda>a. value_struct (alert_fields ParseFloat) a zero_alert) as
              = map Inr (elems (Alerts f))" .
  from arg_cong [OF m, of length] show "length (elems (Alerts f)) = length as" by simp
qed

theorem FromJSON_order_witness:
  "FromJSON ParseFloat_integral blocks_payload = (Some blocks_record, None) \<and>
   length (elems (Data (Minutely blocks_record))) = 2 \<and>
   length (elems (Data (Hourly blocks_record))) = 3 \<and>
   map (\<lambda>p. value_struct (DataPoint_fields ParseFloat_integral) p zero_DataPoint)
     [JObject [(''time'', JNumber ''3'')], JObject [(''time'', JNumber ''4'')],
      JObject [(''time'', JNumber ''5'')]]
     = map Inr (elems (Data (Hourly blocks_record))) \<and>
   length (elems (Data (Daily blocks_record))) = 1 \<and>
   length (elems (Alerts blocks_record)) = 2 \<and>
   map (\<lambda>a. value_struct (alert_fields ParseFloat_integral) a zero_alert)
     [JObject [(''title'', JString ''wind'')], JObject [(''title'', JString ''flood'')]]
     = map Inr (elems (Alerts blocks_record))"
proof -
  let ?ps1 = "[JObject [(''time'', JNumber ''1'')], JObject [(''time'', JNumber ''2'')]]"
  let ?ps2 = "[JObject [(''time'', JNumber ''3'')], JObject [(''time'', JNumber ''4'')],
               JObject [(''time'', JNumber ''5'')]]"
  let ?ps3 = "[JObject [(''time'', JNumber ''6'')]]"
  let ?as = "[JObject [(''title'', JString ''wind'')], JObject [(''title'', JString ''flood'')]]"
  let ?ms = "[(''minutely'', JObject [(''data'', JArray ?ps1)]),
              (''hourly'', JObject [(''data'', JArray ?ps2)]),
              (''daily'', JObject [(''data'', JArray ?ps3)]),
              (''alerts'', JArray ?as)]"
  have m1: "members ''minutely'' ?ms = [(''minutely'', JObject [(''data'', JArray ?ps1)])]"
    by code_simp
  have m2: "members ''hourly'' ?ms = [(''hourly'', JObject [(''data'', JArray ?ps2)])]"
    by code_simp
  have m3: "members ''daily'' ?ms = [(''daily'', JObject [(''data'', JArray ?ps3)])]"
    by code_simp
  have m4: "members ''alerts'' ?ms = [(''alerts'', JArray ?as)]"
    by code_simp
  have d1: "members ''data'' [(''data'', JArray ?ps1)] = [(''data'', JArray ?ps1)]"
    by code_simp
  have d2: "members ''data'' [(''data'', JArray ?ps2)] = [(''data'', JArray ?ps2)]"
    by code_simp
  have d3: "members ''data'' [(''data'', JArray ?ps3)] = [(''data'', JArray ?ps3)]"
    by code_simp
  note t = FromJSON_order [OF blocks_payload_parse blocks_payload_decode,
             where ?k1.0 = "''minutely''" and ?bs1.0 = "[(''data'', JArray ?ps1)]"
               and ?k1' = "''data''" and ?ps1.0 = ?ps1
               and ?k2.0 = "''hourly''" and ?bs2.0 = "[(''data'', JArray ?ps2)]"
               and ?k2' = "''data''" and ?ps2.0 = ?ps2
               and ?k3.0 = "''daily''" and ?bs3.0 = "[(''data'', JArray ?ps3)]"
               and ?k3' = "''data''" and ?ps3.0 = ?ps3
               and ?k4.0 = "''alerts''" and as = ?as]
  from t [THEN conjunct1, THEN mp, OF conjI, OF m1 d1]
  have 1: "length (elems (Data (Minutely blocks_record))) = 2" by simp
  from t [THEN conjunct2, THEN conjunct1, THEN mp, OF conjI, OF m2 d2]
  have 2: "length (elems (Data (Hourly blocks_record))) = 3 \<and>
           map (\<lambda>p. value_struct (DataPoint_fields ParseFloat_integral) p zero_DataPoint) ?ps2
             = map Inr (elems (Data (Hourly blocks_record)))" by simp
  from t [THEN conjunct2, THEN conjunct2, THEN conjunct1, THEN mp, OF conjI, OF m3 d3]
  have 3: "length (elems (Data (Daily blocks_record))) = 1" by simp
  from t [THEN conjunct2, THEN conjunct2, THEN conjunct2, THEN mp, OF m4]
  have 4: "length (elems (Alerts blocks_record)) = 2 \<and>
           map (\<lambda>a. value_struct (alert_fields ParseFloat_integral) a zero_alert) ?as
             = map Inr (elems (Alerts blocks_record))" by simp
  from blocks_payload_decode 1 2 3 4 show ?thesis by blast
qed

text \<open>
  C7 as stated fails for the payload
  \<open>{"minutely": {"data": [{"time": 1}, {"time": 2}], "DATA": [{"time": 9}]}}\<close>: the
  \<open>minutely\<close> block contains a \<open>data\<close> array of two data points, and the decoded \<open>Data\<close>
  has one element (with time 9), because the member \<open>DATA\<close> matches the field too and is
  decoded after it.
\<close>

theorem FromJSON_order_counterexample:
  "parse_json folded_key_payload =
     Some (JObject
       [(''minutely'', JObject
          [(''data'', JArray [JObject [(''time'', JNumber ''1'')], JObject [(''time'', JNumber ''2'')]]),
           (''DATA'', JArray [JObject [(''time'', JNumber ''9'')]])])]) \<and>
   FromJSON ParseFloat_integral folded_key_payload =
     (Some (zero_Forecast
        \<lparr>Minutely := zero_DataBlock
           \<lparr>Data := Slice [zero_DataPoint\<lparr>DataPoint.Time := 9\<rparr>]
                          [zero_DataPoint\<lparr>DataPoint.Time := 2\<rparr>]\<rparr>\<rparr>), None) \<and>
   length (elems (Data (Minutely (the (fst (FromJSON ParseFloat_integral folded_key_payload)))))) = 1"
  by code_simp


section \<open>Get\<close>

lemma GetResponse_result:
  assumes "snd (GetResponse http_Get key lat long time units requested) = requested @ [url]"
  shows "GetResponse http_Get key lat long time units requested =
           (case http_Get url of
              HttpOk res \<Rightarrow> (Some res, None)
            | HttpFail res err \<Rightarrow> (res, Some err),
            requested @ [url])"
proof -
  from assms have "url = (if time = ''now''
                 then BASEURL @ ''/'' @ key @ ''/'' @ (lat @ '','' @ long) @ ''?units='' @ units
                 else BASEURL @ ''/'' @ key @ ''/'' @ (lat @ '','' @ long) @ '','' @ time @ ''?units='' @ units)"
    unfolding GetResponse_def Let_def snd_conv by simp
  then show ?thesis
    unfolding GetResponse_def Let_def by (simp only:)
qed

lemma Get_HttpFail:
  assumes "snd (GetResponse http_Get key lat long time units requested) = requested @ [url]"
    and "http_Get url = HttpFail r e"
  shows "Get http_Get ParseFloat key lat long time units requested = ((None, Some e), requested @ [url])"
  by (simp add: Get_def GetResponse_result [OF assms(1)] assms(2) split: option.splits)

lemma Get_HttpOk:
  assumes "snd (GetResponse http_Get key lat long time units requested) = requested @ [url]"
    and "http_Get url = HttpOk res"
  shows "Get http_Get ParseFloat key lat long time units requested =
           (case Body res of
              (body, Some err) \<Rightarrow> ((None, Some err), requested @ [url])
            | (body, None) \<Rightarrow>
                (case FromJSON ParseFloat body of
                   (f, Some err) \<Rightarrow> ((None, Some err), requested @ [url])
                 | (None, None) \<Rightarrow> ((None, Some NilDereference), requested @ [url])
                 | (Some f, None) \<Rightarrow>
                     ((Some (f\<lparr>APICalls := fst (Atoi (Header_Get (Header res) ''X-Forecast-API-Calls''))\<rparr>),
                       None), requested @ [url])))"
  by (simp add: Get_def GetResponse_result [OF assms(1)] assms(2) split: prod.splits option.splits)

lemma Get_exclusive:
  "(fst (fst (Get http_Get ParseFloat key lat long time units requested)) = None) \<longleftrightarrow>
   (snd (fst (Get http_Get ParseFloat key lat long time units requested)) \<noteq> None)"
  by (simp add: Get_def split: prod.splits option.splits)

lemma canonical_key: "CanonicalMIMEHeaderKey ''X-Forecast-API-Calls'' = ''X-Forecast-Api-Calls''"
  by code_simp

lemma Header_Get_absent:
  "h ''X-Forecast-Api-Calls'' = None \<Longrightarrow> Header_Get h ''X-Forecast-API-Calls'' = []"
  by (simp add: Header_Get_def canonical_key)

lemma example_url:
  "snd (GetResponse http_Get ''KEY'' ''37.8'' ''-122.4'' ''now'' US []) =
     [] @ [''https://api.forecast.io/forecast/KEY/37.8,-122.4?units=us'']"
  by (simp add: GetResponse_def Let_def BASEURL_def US_def)

lemma FromJSON_array_example:
  "FromJSON ParseFloat_integral ''[]'' = (None, Some (UnmarshalTypeError ''array''))"
  by code_simp

lemma FromJSON_empty_example:
  "FromJSON ParseFloat_integral ''{}'' = (Some zero_Forecast, None)"
  by code_simp

lemma Header_Get_example: "Header_Get [''X-Forecast-Api-Calls'' \<mapsto> [v]] ''X-Forecast-API-Calls'' = v"
  by (simp add: Header_Get_def canonical_key)

lemma decimal_42:
  "is_decimal_integer ''42'' \<and> integer_value ''42'' = 42"
  by code_simp

lemma Atoi_overflow: "Atoi ''9223372036854775808'' = (9223372036854775807, Some ErrRange)"
  by code_simp

lemma Atoi_underflow: "Atoi ''-9223372036854775809'' = (- 9223372036854775808, Some ErrRange)"
  by code_simp

lemma apicalls_twice_example:
  \<open>parse_json ''{"apicalls": 7, "APICALLS": 8}''
     = Some (JObject [(''apicalls'', JNumber ''7''), (''APICALLS'', JNumber ''8'')]) \<and>
   members ''apicalls'' [(''apicalls'', JNumber ''7''), (''APICALLS'', JNumber ''8'')]
     = [(''apicalls'', JNumber ''7'')] @ [(''APICALLS'', JNumber ''8'')] \<and>
   FromJSON ParseFloat_integral ''{"apicalls": 7, "APICALLS": 8}''
     = (Some (zero_Forecast\<lparr>APICalls := 8\<rparr>), None)\<close>
  by code_simp

lemma Atoi_overflow_long: "Atoi ''99999999999999999999'' = (9223372036854775807, Some ErrRange)"
  by code_simp

text \<open>
  C6: \<open>Get\<close> composes the request and the decoding and stops at the first error. If the
  transport fails, or reading the body fails, or decoding fails, it returns that error
  and a nil record; it returns a record, with a nil error, exactly when all three steps
  succeed; and whatever the outcome it has sent one request (no retry). Here \<open>url\<close> is
  the URL that \<open>GetResponse\<close> requests.
\<close>

theorem Get_short_circuit:
  assumes "snd (GetResponse http_Get key lat long time units requested) = requested @ [url]"
  shows "(http_Get url = HttpFail r e1 \<longrightarrow>
            fst (Get http_Get ParseFloat key lat long time units requested) = (None, Some e1)) \<and>
         (http_Get url = HttpOk res2 \<and> Body res2 = (b2, Some e2) \<longrightarrow>
            fst (Get http_Get ParseFloat key lat long time units requested) = (None, Some e2)) \<and>
         (http_Get url = HttpOk res3 \<and> Body res3 = (b3, None) \<and> FromJSON ParseFloat b3 = (x, Some e3) \<longrightarrow>
            fst (Get http_Get ParseFloat key lat long time units requested) = (None, Some e3)) \<and>
         ((\<exists>f. fst (Get http_Get ParseFloat key lat long time units requested) = (Some f, None)) \<longleftrightarrow>
          (\<exists>res b f0. http_Get url = HttpOk res \<and> Body res = (b, None) \<and>
                       FromJSON ParseFloat b = (Some f0, None))) \<and>
         snd (Get http_Get ParseFloat key lat long time units requested) = requested @ [url]"
proof (intro conjI impI)
  assume "http_Get url = HttpFail r e1"
  then show "fst (Get http_Get ParseFloat key lat long time units requested) = (None, Some e1)"
    by (simp add: Get_HttpFail [OF assms])
next
  assume "http_Get url = HttpOk res2 \<and> Body res2 = (b2, Some e2)"
  then show "fst (Get http_Get ParseFloat key lat long time units requested) = (None, Some e2)"
    by (simp add: Get_HttpOk [OF assms])
next
  assume "http_Get url = HttpOk res3 \<and> Body res3 = (b3, None) \<and> FromJSON ParseFloat b3 = (x, Some e3)"
  then show "fst (Get http_Get ParseFloat key lat long time units requested) = (None, Some e3)"
    by (simp add: Get_HttpOk [OF assms] split: option.splits)
next
  show "(\<exists>f. fst (Get http_Get ParseFloat key lat long time units requested) = (Some f, None)) \<longleftrightarrow>
        (\<exists>res b f0. http_Get url = HttpOk res \<and> Body res = (b, None) \<and>
                     FromJSON ParseFloat b = (Some f0, None))"
  proof (cases "http_Get url")
    case (HttpOk res)
    then show ?thesis
      by (auto simp add: Get_HttpOk [OF assms HttpOk] split: prod.splits option.splits)
  next
    case (HttpFail r e)
    then show ?thesis
      by (simp add: Get_HttpFail [OF assms HttpFail])
  qed
next
  show "snd (Get http_Get ParseFloat key lat long time units requested) = requested @ [url]"
    by (simp add: Get_requested assms)
qed

theorem Get_short_circuit_witness:
  "fst (Get (\<lambda>url. HttpFail None (HttpError ''connection refused'')) ParseFloat_integral
          ''KEY'' ''37.8'' ''-122.4'' ''now'' US [])
     = (None, Some (HttpError ''connection refused'')) \<and>
   fst (Get (\<lambda>url. HttpOk \<lparr>Header = Map.empty, Body = (''{'', Some (ReadError ''unexpected EOF''))\<rparr>)
          ParseFloat_integral ''KEY'' ''37.8'' ''-122.4'' ''now'' US [])
     = (None, Some (ReadError ''unexpected EOF'')) \<and>
   fst (Get (stub_transport Map.empty ''[]'') ParseFloat_integral ''KEY'' ''37.8'' ''-122.4'' ''now'' US [])
     = (None, Some (UnmarshalTypeError ''array'')) \<and>
   snd (Get (stub_transport Map.empty ''[]'') ParseFloat_integral ''KEY'' ''37.8'' ''-122.4'' ''now'' US [])
     = [''https://api.forecast.io/forecast/KEY/37.8,-122.4?units=us'']"
  using Get_short_circuit [where http_Get = "\<lambda>url. HttpFail None (HttpError ''connection refused'')"
          and ParseFloat = ParseFloat_integral and r = None and ?e1.0 = "HttpError ''connection refused''",
          OF example_url]
        Get_short_circuit [where
          http_Get = "\<lambda>url. HttpOk \<lparr>Header = Map.empty, Body = (''{'', Some (ReadError ''unexpected EOF''))\<rparr>"
          and ParseFloat = ParseFloat_integral
          and ?res2.0 = "\<lparr>Header = Map.empty, Body = (''{'', Some (ReadError ''unexpected EOF''))\<rparr>"
          and ?b2.0 = "''{''" and ?e2.0 = "ReadError ''unexpected EOF''", OF example_url]
        Get_short_circuit [where http_Get = "stub_transport Map.empty ''[]''"
          and ParseFloat = ParseFloat_integral
          and ?res3.0 = "\<lparr>Header = Map.empty, Body = (''[]'', None)\<rparr>" and ?b3.0 = "''[]''"
          and x = None and ?e3.0 = "UnmarshalTypeError ''array''", OF example_url]
        FromJSON_array_example
  by (simp add: stub_transport_def)

text \<open>
  C5 (as amended): after a successful \<open>Get\<close> the record's \<open>APICalls\<close> is the value that
  \<open>strconv.Atoi\<close> returns for the \<open>X-Forecast-API-Calls\<close> header (the empty string when
  the header is absent), and the error of \<open>Atoi\<close> is dropped. That value is the header's
  integer value when the header is a decimal integer in the range of \<open>int\<close> (\<open>42\<close> gives
  42); it is 0 when the header is absent or \<open>Atoi\<close> reports a syntax error; and it is
  \<open>2^63 - 1\<close> or \<open>-2^63\<close>, not 0, when \<open>Atoi\<close> reports a range error.
\<close>

theorem Get_APICalls:
  assumes "snd (GetResponse http_Get key lat long time units requested) = requested @ [url]"
    and "http_Get url = HttpOk res" and "Body res = (body, None)"
    and "FromJSON ParseFloat body = (Some f0, None)"
  shows "fst (Get http_Get ParseFloat key lat long time units requested) =
           (Some (f0\<lparr>APICalls := fst (Atoi (Header_Get (Header res) ''X-Forecast-API-Calls''))\<rparr>), None) \<and>
         (is_decimal_integer (Header_Get (Header res) ''X-Forecast-API-Calls'') \<and>
          - (2 ^ 63) \<le> integer_value (Header_Get (Header res) ''X-Forecast-API-Calls'') \<and>
          integer_value (Header_Get (Header res) ''X-Forecast-API-Calls'') \<le> 2 ^ 63 - 1 \<longrightarrow>
            fst (Atoi (Header_Get (Header res) ''X-Forecast-API-Calls''))
              = integer_value (Header_Get (Header res) ''X-Forecast-API-Calls'')) \<and>
         (Header res ''X-Forecast-Api-Calls'' = None \<longrightarrow>
            fst (Atoi (Header_Get (Header res) ''X-Forecast-API-Calls'')) = 0) \<and>
         (snd (Atoi (Header_Get (Header res) ''X-Forecast-API-Calls'')) = Some ErrSyntax \<longrightarrow>
            fst (Atoi (Header_Get (Header res) ''X-Forecast-API-Calls'')) = 0) \<and>
         (snd (Atoi (Header_Get (Header res) ''X-Forecast-API-Calls'')) = Some ErrRange \<longrightarrow>
            fst (Atoi (Header_Get (Header res) ''X-Forecast-API-Calls'')) = 2 ^ 63 - 1 \<or>
            fst (Atoi (Header_Get (Header res) ''X-Forecast-API-Calls'')) = - (2 ^ 63))"
proof (intro conjI impI)
  show "fst (Get http_Get ParseFloat key lat long time units requested) =
           (Some (f0\<lparr>APICalls := fst (Atoi (Header_Get (Header res) ''X-Forecast-API-Calls''))\<rparr>), None)"
    by (simp add: Get_HttpOk [OF assms(1,2)] assms(3,4))
next
  assume "is_decimal_integer (Header_Get (Header res) ''X-Forecast-API-Calls'') \<and>
          - (2 ^ 63) \<le> integer_value (Header_Get (Header res) ''X-Forecast-API-Calls'') \<and>
          integer_value (Header_Get (Header res) ''X-Forecast-API-Calls'') \<le> 2 ^ 63 - 1"
  then show "fst (Atoi (Header_Get (Header res) ''X-Forecast-API-Calls''))
              = integer_value (Header_Get (Header res) ''X-Forecast-API-Calls'')"
    by (simp add: Atoi_decimal_integer)
next
  assume "Header res ''X-Forecast-Api-Calls'' = None"
  then show "fst (Atoi (Header_Get (Header res) ''X-Forecast-API-Calls'')) = 0"
    by (simp add: Header_Get_absent Atoi_empty)
next
  assume "snd (Atoi (Header_Get (Header res) ''X-Forecast-API-Calls'')) = Some ErrSyntax"
  with Atoi_error_value [of "Header_Get (Header res) ''X-Forecast-API-Calls''"]
  show "fst (Atoi (Header_Get (Header res) ''X-Forecast-API-Calls'')) = 0" by blast
next
  assume "snd (Atoi (Header_Get (Header res) ''X-Forecast-API-Calls'')) = Some ErrRange"
  with Atoi_error_value [of "Header_Get (Header res) ''X-Forecast-API-Calls''"]
  show "fst (Atoi (Header_Get (Header res) ''X-Forecast-API-Calls'')) = 2 ^ 63 - 1 \<or>
        fst (Atoi (Header_Get (Header res) ''X-Forecast-API-Calls'')) = - (2 ^ 63)" by blast
qed

theorem Get_APICalls_witness:
  "fst (Get (stub_transport [''X-Forecast-Api-Calls'' \<mapsto> [''42'']] ''{}'') ParseFloat_integral
          ''KEY'' ''37.8'' ''-122.4'' ''now'' US [])
     = (Some (zero_Forecast\<lparr>APICalls := 42\<rparr>), None) \<and>
   fst (Get (stub_transport Map.empty ''{}'') ParseFloat_integral ''KEY'' ''37.8'' ''-122.4'' ''now'' US [])
     = (Some (zero_Forecast\<lparr>APICalls := 0\<rparr>), None) \<and>
   fst (Get (stub_transport [''X-Forecast-Api-Calls'' \<mapsto> [''9223372036854775808'']] ''{}'')
          ParseFloat_integral ''KEY'' ''37.8'' ''-122.4'' ''now'' US [])
     = (Some (zero_Forecast\<lparr>APICalls := 2 ^ 63 - 1\<rparr>), None)"
proof -
  let ?r1 = "\<lparr>Header = [''X-Forecast-Api-Calls'' \<mapsto> [''42'']], Body = (''{}'', None)\<rparr>"
  let ?r2 = "\<lparr>Header = Map.empty, Body = (''{}'', None)\<rparr>"
  let ?r3 = "\<lparr>Header = [''X-Forecast-Api-Calls'' \<mapsto> [''9223372036854775808'']], Body = (''{}'', None)\<rparr>"
  have 1: "stub_transport [''X-Forecast-Api-Calls'' \<mapsto> [''42'']] ''{}''
             ''https://api.forecast.io/forecast/KEY/37.8,-122.4?units=us'' = HttpOk ?r1"
    by (simp add: stub_transport_def)
  have 2: "stub_transport Map.empty ''{}''
             ''https://api.forecast.io/forecast/KEY/37.8,-122.4?units=us'' = HttpOk ?r2"
    by (simp add: stub_transport_def)
  have 3: "stub_transport [''X-Forecast-Api-Calls'' \<mapsto> [''9223372036854775808'']] ''{}''
             ''https://api.forecast.io/forecast/KEY/37.8,-122.4?units=us'' = HttpOk ?r3"
    by (simp add: stub_transport_def)
  have b1: "Body ?r1 = (''{}'', None)" and b2: "Body ?r2 = (''{}'', None)"
    and b3: "Body ?r3 = (''{}'', None)" by simp_all
  from Get_APICalls [where http_Get = "stub_transport [''X-Forecast-Api-Calls'' \<mapsto> [''42'']] ''{}''",
         OF example_url 1 b1 FromJSON_empty_example] decimal_42
  have "fst (Get (stub_transport [''X-Forecast-Api-Calls'' \<mapsto> [''42'']] ''{}'') ParseFloat_integral
          ''KEY'' ''37.8'' ''-122.4'' ''now'' US [])
     = (Some (zero_Forecast\<lparr>APICalls := 42\<rparr>), None)"
    by (simp add: Header_Get_example)
  moreover from Get_APICalls [where http_Get = "stub_transport Map.empty ''{}''",
         OF example_url 2 b2 FromJSON_empty_example]
  have "fst (Get (stub_transport Map.empty ''{}'') ParseFloat_integral ''KEY'' ''37.8'' ''-122.4'' ''now'' US [])
     = (Some (zero_Forecast\<lparr>APICalls := 0\<rparr>), None)"
    by simp
  moreover from Get_APICalls [where
         http_Get = "stub_transport [''X-Forecast-Api-Calls'' \<mapsto> [''9223372036854775808'']] ''{}''",
         OF example_url 3 b3 FromJSON_empty_example] Atoi_overflow
  have "fst (Get (stub_transport [''X-Forecast-Api-Calls'' \<mapsto> [''9223372036854775808'']] ''{}'')
          ParseFloat_integral ''KEY'' ''37.8'' ''-122.4'' ''now'' US [])
     = (Some (zero_Forecast\<lparr>APICalls := 2 ^ 63 - 1\<rparr>), None)"
    by (simp add: Header_Get_example)
  ultimately show ?thesis by blast
qed

text \<open>
  C5 as stated fails for the header value \<open>9223372036854775808\<close>: \<open>Atoi\<close> cannot parse it
  as an \<open>int\<close> (range error), yet the counter is \<open>9223372036854775807\<close>, neither 0 nor
  the integer value of the header.
\<close>

theorem Get_APICalls_counterexample:
  "snd (Atoi ''9223372036854775808'') = Some ErrRange \<and>
   integer_value ''9223372036854775808'' = 9223372036854775808 \<and>
   fst (Get (stub_transport [''X-Forecast-Api-Calls'' \<mapsto> [''9223372036854775808'']] ''{}'')
          ParseFloat_integral ''KEY'' ''37.8'' ''-122.4'' ''now'' US [])
     = (Some (zero_Forecast\<lparr>APICalls := 9223372036854775807\<rparr>), None)"
  by code_simp

text \<open>
  C10 (as amended): \<open>APICalls\<close> is bound to the key \<open>apicalls\<close>, so \<open>FromJSON\<close> alone sets
  it from a body with that key: to the number of the last member whose name is
  \<open>apicalls\<close> up to case. \<open>Get\<close> then overwrites it with the value \<open>Atoi\<close> returns for
  the header, whatever the body said. If the header is absent or \<open>Atoi\<close> reports a syntax
  error, the record returned has \<open>APICalls = 0\<close>, not the body's \<open>n\<close>; if \<open>Atoi\<close> reports
  a range error, it has the bound \<open>2^63 - 1\<close> or \<open>-2^63\<close>, whatever the body's \<open>n\<close>.
\<close>

theorem Get_overwrites_APICalls:
  assumes "snd (GetResponse http_Get key lat long time units requested) = requested @ [url]"
    and "http_Get url = HttpOk res" and "Body res = (body, None)"
    and "FromJSON ParseFloat body = (Some f0, None)"
  shows "(parse_json body = Some (JObject ms) \<and> members ''apicalls'' ms = pre @ [(k, JNumber l)] \<longrightarrow>
            ParseInt l = (APICalls f0, None)) \<and>
         fst (Get http_Get ParseFloat key lat long time units requested) =
           (Some (f0\<lparr>APICalls := fst (Atoi (Header_Get (Header res) ''X-Forecast-API-Calls''))\<rparr>), None) \<and>
         (Header res ''X-Forecast-Api-Calls'' = None \<or>
          snd (Atoi (Header_Get (Header res) ''X-Forecast-API-Calls'')) = Some ErrSyntax \<longrightarrow>
            fst (Get http_Get ParseFloat key lat long time units requested) =
              (Some (f0\<lparr>APICalls := 0\<rparr>), None)) \<and>
         (snd (Atoi (Header_Get (Header res) ''X-Forecast-API-Calls'')) = Some ErrRange \<longrightarrow>
            fst (Get http_Get ParseFloat key lat long time units requested) =
              (Some (f0\<lparr>APICalls := 2 ^ 63 - 1\<rparr>), None) \<or>
            fst (Get http_Get ParseFloat key lat long time units requested) =
              (Some (f0\<lparr>APICalls := - (2 ^ 63)\<rparr>), None))"
proof (intro conjI impI)
  assume "parse_json body = Some (JObject ms) \<and> members ''apicalls'' ms = pre @ [(k, JNumber l)]"
  then show "ParseInt l = (APICalls f0, None)"
    using APICalls_body_last [OF _ assms(4)] by blast
next
  show g: "fst (Get http_Get ParseFloat key lat long time units requested) =
           (Some (f0\<lparr>APICalls := fst (Atoi (Header_Get (Header res) ''X-Forecast-API-Calls''))\<rparr>), None)"
    by (simp add: Get_HttpOk [OF assms(1,2)] assms(3,4))
  {
    assume "Header res ''X-Forecast-Api-Calls'' = None \<or>
            snd (Atoi (Header_Get (Header res) ''X-Forecast-API-Calls'')) = Some ErrSyntax"
    then have "fst (Atoi (Header_Get (Header res) ''X-Forecast-API-Calls'')) = 0"
      using Atoi_error_value [of "Header_Get (Header res) ''X-Forecast-API-Calls''"]
      by (auto simp add: Header_Get_absent Atoi_empty)
    with g show "fst (Get http_Get ParseFloat key lat long time units requested) =
                (Some (f0\<lparr>APICalls := 0\<rparr>), None)" by simp
  }
  {
    assume "snd (Atoi (Header_Get (Header res) ''X-Forecast-API-Calls'')) = Some ErrRange"
    with Atoi_error_value [of "Header_Get (Header res) ''X-Forecast-API-Calls''"]
    have "fst (Atoi (Header_Get (Header res) ''X-Forecast-API-Calls'')) = 2 ^ 63 - 1 \<or>
          fst (Atoi (Header_Get (Header res) ''X-Forecast-API-Calls'')) = - (2 ^ 63)" by blast
    with g show "fst (Get http_Get ParseFloat key lat long time units requested) =
              (Some (f0\<lparr>APICalls := 2 ^ 63 - 1\<rparr>), None) \<or>
            fst (Get http_Get ParseFloat key lat long time units requested) =
              (Some (f0\<lparr>APICalls := - (2 ^ 63)\<rparr>), None)" by auto
  }
qed

theorem Get_overwrites_APICalls_witness:
  \<open>ParseInt ''8'' = (APICalls (zero_Forecast\<lparr>APICalls := 8\<rparr> :: int Forecast), None) \<and>
   fst (Get (stub_transport Map.empty ''{"apicalls": 7, "APICALLS": 8}'') ParseFloat_integral
          ''KEY'' ''37.8'' ''-122.4'' ''now'' US [])
     = (Some (zero_Forecast\<lparr>APICalls := 0\<rparr>), None) \<and>
   fst (Get (stub_transport [''X-Forecast-Api-Calls'' \<mapsto> [''99999999999999999999'']]
               ''{"apicalls": 7, "APICALLS": 8}'') ParseFloat_integral
          ''KEY'' ''37.8'' ''-122.4'' ''now'' US [])
     = (Some (zero_Forecast\<lparr>APICalls := 2 ^ 63 - 1\<rparr>), None)\<close>
proof -
  let ?body = \<open>''{"apicalls": 7, "APICALLS": 8}''\<close>
  let ?h = "[''X-Forecast-Api-Calls'' \<mapsto> [''99999999999999999999'']]"
  let ?r1 = "\<lparr>Header = Map.empty, Body = (?body, None)\<rparr>"
  let ?r2 = "\<lparr>Header = ?h, Body = (?body, None)\<rparr>"
  have 1: "stub_transport Map.empty ?body
             ''https://api.forecast.io/forecast/KEY/37.8,-122.4?units=us'' = HttpOk ?r1"
    by (simp add: stub_transport_def)
  have 2: "stub_transport ?h ?body
             ''https://api.forecast.io/forecast/KEY/37.8,-122.4?units=us'' = HttpOk ?r2"
    by (simp add: stub_transport_def)
  have b1: "Body ?r1 = (?body, None)" and b2: "Body ?r2 = (?body, None)" by simp_all
  have h1: "Header ?r1 ''X-Forecast-Api-Calls'' = None" by simp
  have h2: "snd (Atoi (Header_Get (Header ?r2) ''X-Forecast-API-Calls'')) = Some ErrRange"
    by (simp add: Header_Get_example Atoi_overflow_long)
  note e = apicalls_twice_example
  note g1 = Get_overwrites_APICalls [where http_Get = "stub_transport Map.empty ?body"
              and ms = "[(''apicalls'', JNumber ''7''), (''APICALLS'', JNumber ''8'')]"
              and pre = "[(''apicalls'', JNumber ''7'')]" and k = "''APICALLS''" and l = "''8''",
              OF example_url 1 b1 e [THEN conjunct2, THEN conjunct2]]
  note g2 = Get_overwrites_APICalls [where http_Get = "stub_transport ?h ?body",
              OF example_url 2 b2 e [THEN conjunct2, THEN conjunct2]]
  from g1 [THEN conjunct1, THEN mp, OF conjI, OF e [THEN conjunct1] e [THEN conjunct2, THEN conjunct1]]
  have a: "ParseInt ''8'' = (APICalls (zero_Forecast\<lparr>APICalls := 8\<rparr> :: int Forecast), None)" .
  from g1 [THEN conjunct2, THEN conjunct2, THEN conjunct1, THEN mp, OF disjI1, OF h1]
  have b: "fst (Get (stub_transport Map.empty ?body) ParseFloat_integral
                 ''KEY'' ''37.8'' ''-122.4'' ''now'' US [])
             = (Some (zero_Forecast\<lparr>APICalls := 0\<rparr>), None)" by simp
  from g2 [THEN conjunct2, THEN conjunct2, THEN conjunct2, THEN mp, OF h2]
       g2 [THEN conjunct2, THEN conjunct1]
  have c: "fst (Get (stub_transport ?h ?body) ParseFloat_integral
                 ''KEY'' ''37.8'' ''-122.4'' ''now'' US [])
             = (Some (zero_Forecast\<lparr>APICalls := 2 ^ 63 - 1\<rparr>), None)"
    by (simp add: Header_Get_example Atoi_overflow_long)
  from a b c show ?thesis by blast
qed

text \<open>
  C10 as stated fails for the body \<open>{"apicalls": 7}\<close> and the header value
  \<open>-9223372036854775809\<close>: the header is unparsable as an \<open>int\<close> (range error), and the
  record returned has \<open>APICalls = -9223372036854775808\<close>, not 0.
\<close>

theorem Get_overwrites_APICalls_counterexample:
  \<open>fst (FromJSON ParseFloat_integral ''{"apicalls": 7}'') = Some (zero_Forecast\<lparr>APICalls := 7\<rparr>) \<and>
   snd (Atoi ''-9223372036854775809'') = Some ErrRange \<and>
   fst (Get (stub_transport [''X-Forecast-Api-Calls'' \<mapsto> [''-9223372036854775809'']] ''{"apicalls": 7}'')
          ParseFloat_integral ''KEY'' ''37.8'' ''-122.4'' ''now'' US [])
     = (Some (zero_Forecast\<lparr>APICalls := - 9223372036854775808\<rparr>), None)\<close>
  by code_simp

end
